theory Spec2Isabelle
  imports Complex_Main "HOL-Library.Sublist" "HOL-Library.Multiset" "HOL-Library.AList"
begin

section \<open>Python values and the library the program calls\<close>

text \<open>
  A Python \<open>str\<close> is a sequence of Unicode code points; a code point is a natural
  number. \<open>u\<close> turns an ASCII literal of this file into such a sequence.
\<close>

type_synonym ustr = "nat list"

definition u :: "string \<Rightarrow> ustr" where
  "u s = map of_char s"

text \<open>
  A \<open>float\<close> is a finite binary64 number (a rational), an infinity or a NaN. A NaN
  carries the identity of its object, because \<open>set\<close> compares elements by identity
  before it compares them by \<open>==\<close>, and a NaN is equal to nothing by \<open>==\<close>.
\<close>

datatype pyfloat = Fin rat | PInf | NInf | NaN nat

text \<open>A \<open>datetime\<close> (pandas \<open>Timestamp\<close> is a subclass): its fields.\<close>

datatype pydt = Datetime (dt_year: nat) (dt_month: nat) (dt_day: nat)
  (dt_hour: nat) (dt_minute: nat) (dt_second: nat) (dt_micro: nat)

text \<open>The cell values pandas and openpyxl hand to the program.\<close>

datatype pyval = PNone | PBool bool | PInt int | PFloat pyfloat | PStr ustr | PDatetime pydt

datatype pyerror = ValueError | IndexError | UnicodeEncodeError | DatabaseError

text \<open>
  What the program uses of Python's library and of the Unicode database, and does not
  define itself. The character tables are consulted for code points from 128 on only:
  the ASCII part of every table is written out below.
\<close>

record pylib =
  uni_isspace :: "nat \<Rightarrow> bool"
  uni_isword :: "nat \<Rightarrow> bool"
  uni_isalpha :: "nat \<Rightarrow> bool"
  uni_digit :: "nat \<Rightarrow> nat option"
  uni_upper :: "nat \<Rightarrow> ustr"
  uni_lower :: "nat \<Rightarrow> ustr"
  uni_cc_cf :: "nat \<Rightarrow> bool"
  float_parse :: "ustr \<Rightarrow> pyfloat option"
  float_repr :: "pyfloat \<Rightarrow> ustr"
  lib_strftime :: "pydt \<Rightarrow> ustr \<Rightarrow> ustr option"
  lib_strptime_ymd :: "ustr \<Rightarrow> pydt option"
  md5_hex :: "ustr \<Rightarrow> ustr"

definition py_isspace :: "pylib \<Rightarrow> nat \<Rightarrow> bool" where
  "py_isspace lib c =
     (if c < 128 then (9 \<le> c \<and> c \<le> 13) \<or> (28 \<le> c \<and> c \<le> 32) else uni_isspace lib c)"

definition is_ascii_upper :: "nat \<Rightarrow> bool" where
  "is_ascii_upper c = (65 \<le> c \<and> c \<le> 90)"

definition is_ascii_lower :: "nat \<Rightarrow> bool" where
  "is_ascii_lower c = (97 \<le> c \<and> c \<le> 122)"

definition is_ascii_digit :: "nat \<Rightarrow> bool" where
  "is_ascii_digit c = (48 \<le> c \<and> c \<le> 57)"

definition py_isalpha :: "pylib \<Rightarrow> nat \<Rightarrow> bool" where
  "py_isalpha lib c =
     (if c < 128 then is_ascii_upper c \<or> is_ascii_lower c else uni_isalpha lib c)"

text \<open>The class \<open>\w\<close> of \<open>re\<close> on a \<open>str\<close> pattern.\<close>

definition py_isword :: "pylib \<Rightarrow> nat \<Rightarrow> bool" where
  "py_isword lib c =
     (if c < 128 then is_ascii_upper c \<or> is_ascii_lower c \<or> is_ascii_digit c \<or> c = 95
      else uni_isword lib c)"

definition upper_char :: "pylib \<Rightarrow> nat \<Rightarrow> ustr" where
  "upper_char lib c =
     (if c < 128 then (if is_ascii_lower c then [c - 32] else [c]) else uni_upper lib c)"

definition lower_char :: "pylib \<Rightarrow> nat \<Rightarrow> ustr" where
  "lower_char lib c =
     (if c < 128 then (if is_ascii_upper c then [c + 32] else [c]) else uni_lower lib c)"

definition py_upper :: "pylib \<Rightarrow> ustr \<Rightarrow> ustr" where
  "py_upper lib s = concat (map (upper_char lib) s)"

definition py_lower :: "pylib \<Rightarrow> ustr \<Rightarrow> ustr" where
  "py_lower lib s = concat (map (lower_char lib) s)"

text \<open>\<open>s.strip()\<close> and \<open>s.strip('_')\<close>.\<close>

definition strip_with :: "(nat \<Rightarrow> bool) \<Rightarrow> ustr \<Rightarrow> ustr" where
  "strip_with p s = rev (dropWhile p (rev (dropWhile p s)))"

definition py_strip :: "pylib \<Rightarrow> ustr \<Rightarrow> ustr" where
  "py_strip lib s = strip_with (py_isspace lib) s"


text \<open>\<open>str(n)\<close> for an \<open>int\<close>.\<close>

fun digits_of :: "nat \<Rightarrow> ustr" where
  "digits_of n = (if n < 10 then [48 + n] else digits_of (n div 10) @ [48 + n mod 10])"

declare digits_of.simps [simp del]

definition str_of_int :: "int \<Rightarrow> ustr" where
  "str_of_int i = (if i < 0 then 45 # digits_of (nat (- i)) else digits_of (nat i))"

text \<open>\<open>str(d)\<close> for a \<open>datetime\<close>: \<open>YYYY-MM-DD HH:MM:SS\<close>, then \<open>.ffffff\<close> when the
  microsecond is not zero.\<close>

definition pad_digits :: "nat \<Rightarrow> nat \<Rightarrow> ustr" where
  "pad_digits w n = replicate (w - length (digits_of n)) 48 @ digits_of n"

definition fmt_ymdhms :: "pydt \<Rightarrow> ustr" where
  "fmt_ymdhms d =
     pad_digits 4 (dt_year d) @ [45] @ pad_digits 2 (dt_month d) @ [45] @ pad_digits 2 (dt_day d)
     @ [32] @ pad_digits 2 (dt_hour d) @ [58] @ pad_digits 2 (dt_minute d) @ [58]
     @ pad_digits 2 (dt_second d)"

definition str_of_datetime :: "pydt \<Rightarrow> ustr" where
  "str_of_datetime d =
     fmt_ymdhms d @ (if dt_micro d = 0 then [] else 46 # pad_digits 6 (dt_micro d))"

text \<open>
  \<open>str(x)\<close>. The text of a finite float is the library's; the others are written out.
  On an \<open>int\<close> of more than 4300 digits (the default limit of CPython) \<open>str\<close> raises
  \<open>ValueError\<close>: \<open>str_raises\<close> says when, and \<open>py_str\<close> is the text where it does not.
\<close>

fun py_str :: "pylib \<Rightarrow> pyval \<Rightarrow> ustr" where
  "py_str lib PNone = u ''None''"
| "py_str lib (PBool b) = (if b then u ''True'' else u ''False'')"
| "py_str lib (PInt i) = str_of_int i"
| "py_str lib (PFloat (Fin r)) = float_repr lib (Fin r)"
| "py_str lib (PFloat PInf) = u ''inf''"
| "py_str lib (PFloat NInf) = u ''-inf''"
| "py_str lib (PFloat (NaN k)) = u ''nan''"
| "py_str lib (PStr s) = s"
| "py_str lib (PDatetime d) = str_of_datetime d"

definition int_max_str_digits :: nat where
  "int_max_str_digits = 4300"

definition str_raises :: "pyval \<Rightarrow> bool" where
  "str_raises x =
     (case x of PInt i \<Rightarrow> length (digits_of (nat \<bar>i\<bar>)) > int_max_str_digits | _ \<Rightarrow> False)"

section \<open>Transform rules: \<open>apply_column_transformation\<close>\<close>

text \<open>\<open>s.split(sep, 1)\<close> for a one-character separator: the parts before and after the
  first separator, or the whole string alone.\<close>

fun split_once :: "nat \<Rightarrow> ustr \<Rightarrow> ustr list" where
  "split_once sep s =
     (if sep \<in> set s then [takeWhile (\<lambda>c. c \<noteq> sep) s, tl (dropWhile (\<lambda>c. c \<noteq> sep) s)]
      else [s])"

text \<open>\<open>s.replace(old, new)\<close>: every occurrence from the left, not overlapping; an empty
  \<open>old\<close> matches before every character and at the end.\<close>

fun replace_ne :: "ustr \<Rightarrow> ustr \<Rightarrow> nat \<Rightarrow> ustr \<Rightarrow> ustr" where
  "replace_ne old new skip [] = []"
| "replace_ne old new skip (c # cs) =
     (if skip > 0 then replace_ne old new (skip - 1) cs
      else if prefix old (c # cs) then new @ replace_ne old new (length old - 1) cs
      else c # replace_ne old new 0 cs)"

definition py_replace :: "ustr \<Rightarrow> ustr \<Rightarrow> ustr \<Rightarrow> ustr" where
  "py_replace s old new =
     (if old = [] then new @ concat (map (\<lambda>c. c # new) s) else replace_ne old new 0 s)"

text \<open>
  The rule is a string; \<open>not transform_rule\<close> holds of the empty one. The bare
  \<open>except\<close> of the \<open>date_format\<close> branch turns every failure of \<open>strftime\<close> and
  \<open>strptime\<close> into the unchanged value, and also the failure of \<open>str\<close> there. The
  unpacking \<open>old, new = ...split(',', 1)\<close> raises \<open>ValueError\<close> when the rule's argument
  has no comma; so does \<open>str(excel_value)\<close>, or the formatting of the value, on an \<open>int\<close>
  beyond the digit limit.
\<close>

definition apply_column_transformation :: "pylib \<Rightarrow> pyval \<Rightarrow> ustr \<Rightarrow> pyerror + pyval" where
  "apply_column_transformation lib excel_value transform_rule =
     (if transform_rule = [] \<or> excel_value = PNone then Inr excel_value
      else
        let rule_parts = split_once 58 transform_rule;
            rule_name = py_lower lib (hd rule_parts)
        in
          if rule_name = u ''uppercase''
            then (if str_raises excel_value then Inl ValueError
                  else Inr (PStr (py_upper lib (py_str lib excel_value))))
          else if rule_name = u ''lowercase''
            then (if str_raises excel_value then Inl ValueError
                  else Inr (PStr (py_lower lib (py_str lib excel_value))))
          else if rule_name = u ''trim''
            then (if str_raises excel_value then Inl ValueError
                  else Inr (PStr (py_strip lib (py_str lib excel_value))))
          else if rule_name = u ''prefix'' \<and> length rule_parts > 1
            then (if str_raises excel_value then Inl ValueError
                  else Inr (PStr (rule_parts ! 1 @ py_str lib excel_value)))
          else if rule_name = u ''suffix'' \<and> length rule_parts > 1
            then (if str_raises excel_value then Inl ValueError
                  else Inr (PStr (py_str lib excel_value @ rule_parts ! 1)))
          else if rule_name = u ''replace'' \<and> length rule_parts > 1
            then (case split_once 44 (rule_parts ! 1) of
                    [old, new] \<Rightarrow>
                      (if str_raises excel_value then Inl ValueError
                       else Inr (PStr (py_replace (py_str lib excel_value) old new)))
                  | _ \<Rightarrow> Inl ValueError)
          else if rule_name = u ''date_format'' \<and> length rule_parts > 1
            then (case excel_value of
                    PDatetime d \<Rightarrow>
                      (case lib_strftime lib d (rule_parts ! 1) of
                         Some s \<Rightarrow> Inr (PStr s) | None \<Rightarrow> Inr excel_value)
                  | _ \<Rightarrow>
                      (if str_raises excel_value then Inr excel_value
                       else
                         case lib_strptime_ymd lib (py_str lib excel_value) of
                           None \<Rightarrow> Inr excel_value
                         | Some d \<Rightarrow>
                             (case lib_strftime lib d (rule_parts ! 1) of
                                Some s \<Rightarrow> Inr (PStr s) | None \<Rightarrow> Inr excel_value)))
          else Inr excel_value)"

section \<open>Dispatch and reassembly: \<open>file_to_database\<close>\<close>

text \<open>
  The part of a task tuple that decides which rows a worker reads: \<open>chunk_id\<close>,
  \<open>skiprows\<close> and \<open>nrows\<close>. The header line is skipped once more when the file
  has one (always for a spreadsheet).
\<close>

record chunk_task =
  chunk_id :: nat
  skiprows :: nat
  nrows :: nat

definition total_chunks :: "nat \<Rightarrow> nat \<Rightarrow> nat" where
  "total_chunks estimated_rows chunk_size = (estimated_rows + chunk_size - 1) div chunk_size"

definition make_tasks :: "nat \<Rightarrow> nat \<Rightarrow> bool \<Rightarrow> chunk_task list" where
  "make_tasks estimated_rows chunk_size has_header =
     map (\<lambda>i. \<lparr>chunk_id = i,
                skiprows = i * chunk_size + (if has_header then 1 else 0),
                nrows = chunk_size\<rparr>)
       [0..<total_chunks estimated_rows chunk_size]"

text \<open>The lines a task's read returns: \<open>nrows\<close> lines after the first \<open>skiprows\<close>.\<close>

definition task_window :: "'l list \<Rightarrow> chunk_task \<Rightarrow> 'l list" where
  "task_window file_lines t = take (nrows t) (drop (skiprows t) file_lines)"

text \<open>What a future returns: the pair of \<open>process_chunk\<close>, for a worker that turns the
  lines it read into rows.\<close>

definition run_task :: "('l list \<Rightarrow> 'r list) \<Rightarrow> 'l list \<Rightarrow> chunk_task \<Rightarrow> nat \<times> 'r list" where
  "run_task worker file_lines t = (chunk_id t, worker (task_window file_lines t))"

text \<open>
  The loop over \<open>as_completed\<close>: a result with rows is stored under its chunk id. The
  dictionary is an association list in insertion order; assigning to a key that is there
  keeps its place, as in Python.
\<close>

definition store_result :: "(nat \<times> 'r list) list \<Rightarrow> nat \<times> 'r list \<Rightarrow> (nat \<times> 'r list) list" where
  "store_result data_chunks_dict r =
     (if snd r \<noteq> [] then AList.update (fst r) (snd r) data_chunks_dict else data_chunks_dict)"

definition count_result :: "nat \<Rightarrow> nat \<times> 'r list \<Rightarrow> nat" where
  "count_result processed_rows r = processed_rows + length (snd r)"

text \<open>\<open>sorted(data_chunks_dict.items())\<close> orders the pairs by key (the keys of a dictionary
  differ, so the values are never compared); \<open>chunk_data_only\<close> keeps the values.\<close>

definition reassemble :: "(nat \<times> 'r list) list \<Rightarrow> 'r list list" where
  "reassemble completed =
     (let data_chunks_dict = foldl store_result [] completed;
          sorted_chunks = sort_key fst data_chunks_dict
      in map snd sorted_chunks)"

definition processed_rows_of :: "(nat \<times> 'r list) list \<Rightarrow> nat" where
  "processed_rows_of completed = foldl count_result 0 completed"

section \<open>The chunk worker: \<open>process_chunk\<close>\<close>

type_synonym row = "pyval list"

text \<open>The categories \<open>Cc\<close> and \<open>Cf\<close> of \<open>unicodedata\<close>: in ASCII, the control
  characters.\<close>

definition py_is_cc_cf :: "pylib \<Rightarrow> nat \<Rightarrow> bool" where
  "py_is_cc_cf lib c = (if c < 128 then c < 32 \<or> c = 127 else uni_cc_cf lib c)"

text \<open>
  The answer of \<open>is_nan_or_empty\<close>. Its last test takes \<open>str(value)\<close>, which raises on an
  \<open>int\<close> beyond the digit limit: the callers below test \<open>str_raises\<close> before they ask.
\<close>

definition is_nan_or_empty :: "pylib \<Rightarrow> pyval \<Rightarrow> bool" where
  "is_nan_or_empty lib v =
     (case v of
        PNone \<Rightarrow> True
      | PStr s \<Rightarrow>
          py_strip lib s = [] \<or> s = [] \<or> py_lower lib s \<in> {u ''nan'', u ''none'', u ''null''}
      | PFloat f \<Rightarrow> (case f of NaN _ \<Rightarrow> True | _ \<Rightarrow> False)
      | _ \<Rightarrow> py_lower lib (py_str lib v) \<in> {u ''nan'', u ''none'', u ''null''})"

text \<open>The string cleaning of the row-level path: line breaks and tabs become a space,
  backspace and bell go, then every control or format character but space and tab goes.\<close>

definition clean_string :: "pylib \<Rightarrow> ustr \<Rightarrow> ustr" where
  "clean_string lib s =
     (let s1 = py_replace (py_replace (py_replace s [13, 10] [32]) [10] [32]) [13] [32];
          s2 = py_replace (py_replace (py_replace s1 [9] [32]) [12] [32]) [11] [32];
          s3 = py_replace (py_replace s2 [8] []) [7] []
      in filter (\<lambda>c. \<not> py_is_cc_cf lib c \<or> c = 32 \<or> c = 9) s3)"

text \<open>The first error of a sequence of results, as a loop stops at the first raise.\<close>

fun collect :: "('e + 'a) list \<Rightarrow> 'e + 'a list" where
  "collect [] = Inr []"
| "collect (x # xs) =
     (case x of
        Inl e \<Rightarrow> Inl e
      | Inr a \<Rightarrow> (case collect xs of Inl e \<Rightarrow> Inl e | Inr as \<Rightarrow> Inr (a # as)))"

text \<open>
  One cell of the row-level path (the body of \<open>for i in range(len(headers))\<close>):
  a column the row lacks is \<open>None\<close>; the transform rule of the header, when there is one,
  is applied first and may raise, and so may \<open>is_nan_or_empty\<close>; a \<open>Timestamp\<close> is a
  \<open>datetime\<close> here.
\<close>

definition fallback_cell :: "pylib \<Rightarrow> (ustr \<rightharpoonup> ustr) \<Rightarrow> ustr list \<Rightarrow> row \<Rightarrow> nat \<Rightarrow> pyerror + pyval" where
  "fallback_cell lib transform_rules headers r i =
     (let cell_value = (if i < length r then r ! i else PNone);
          transformed =
            (case transform_rules (headers ! i) of
               None \<Rightarrow> Inr cell_value
             | Some rule \<Rightarrow> apply_column_transformation lib cell_value rule)
      in case transformed of
           Inl e \<Rightarrow> Inl e
         | Inr v \<Rightarrow>
             if str_raises v then Inl ValueError
             else if is_nan_or_empty lib v then Inr PNone
             else (case v of
                     PDatetime d \<Rightarrow> Inr (PStr (fmt_ymdhms d))
                   | PStr s \<Rightarrow> Inr (PStr (clean_string lib s))
                   | _ \<Rightarrow> Inr v))"

definition fallback_rows :: "pylib \<Rightarrow> (ustr \<rightharpoonup> ustr) \<Rightarrow> ustr list \<Rightarrow> row list \<Rightarrow> pyerror + row list" where
  "fallback_rows lib transform_rules headers rows =
     collect (map (\<lambda>r. collect (map (fallback_cell lib transform_rules headers r)
                                   [0..<length headers])) rows)"

text \<open>
  What pandas does for the worker: \<open>read_frame\<close> is the read of the task's window with
  the merged cells filled in and the empty rows dropped (\<open>Inl\<close> when it raises);
  \<open>vectorized\<close> is the vectorised path of the inner \<open>try\<close>, which gives the processed
  rows or raises, leaving the frame as it then is.
\<close>

record pandas =
  read_frame :: "chunk_task \<Rightarrow> pyerror + row list"
  vectorized :: "row list \<Rightarrow> row list + row list"

definition process_chunk ::
  "pylib \<Rightarrow> pandas \<Rightarrow> (ustr \<rightharpoonup> ustr) \<Rightarrow> ustr list \<Rightarrow> chunk_task \<Rightarrow> nat \<times> row list" where
  "process_chunk lib pd transform_rules headers t =
     (case read_frame pd t of
        Inl e \<Rightarrow> (chunk_id t, [])
      | Inr df_chunk \<Rightarrow>
          (case vectorized pd df_chunk of
             Inr processed_data \<Rightarrow> (chunk_id t, processed_data)
           | Inl df_then \<Rightarrow>
               (case fallback_rows lib transform_rules headers df_then of
                  Inr processed_data \<Rightarrow> (chunk_id t, processed_data)
                | Inl e \<Rightarrow> (chunk_id t, []))))"

section \<open>The backends' \<open>write_data\<close>\<close>

text \<open>
  A table as a connection sees it: the transactions committed so far, oldest first, and
  the rows of the open transaction. \<open>insert_fails\<close> says when \<open>executemany\<close> raises,
  given the rows the connection sees and the batch.
\<close>

record table =
  committed :: "row list list"
  pending :: "row list"

definition commit :: "table \<Rightarrow> table" where
  "commit db = \<lparr>committed = committed db @ [pending db], pending = []\<rparr>"

definition rollback :: "table \<Rightarrow> table" where
  "rollback db = db\<lparr>pending := []\<rparr>"

definition visible :: "table \<Rightarrow> row list" where
  "visible db = concat (committed db) @ pending db"

text \<open>The field mapping is the list of its items; \<open>if field_mapping\<close> holds of a
  mapping with an item.\<close>

definition in_mapping :: "ustr \<Rightarrow> (ustr \<times> ustr) list \<Rightarrow> bool" where
  "in_mapping h field_mapping = (h \<in> fst ` set field_mapping)"

subsection \<open>\<open>SQLiteDatabase.write_data\<close>\<close>

definition max_batch_size :: nat where
  "max_batch_size = 50000"

text \<open>The row rebuilt under a mapping: \<open>row[i]\<close> raises \<open>IndexError\<close> on a row
  shorter than a mapped header's index, and \<open>is_nan_or_empty\<close> raises \<open>ValueError\<close> on a
  value whose \<open>str\<close> does.\<close>

definition sqlite_filtered_row :: "pylib \<Rightarrow> ustr list \<Rightarrow> (ustr \<times> ustr) list \<Rightarrow> row \<Rightarrow> pyerror + row" where
  "sqlite_filtered_row lib headers field_mapping r =
     collect (map (\<lambda>i. if i < length r
                        then (if str_raises (r ! i) then Inl ValueError
                              else Inr (if is_nan_or_empty lib (r ! i) then PNone else r ! i))
                        else Inl IndexError)
                (filter (\<lambda>i. in_mapping (headers ! i) field_mapping) [0..<length headers]))"

definition sqlite_batch :: "pylib \<Rightarrow> ustr list \<Rightarrow> (ustr \<times> ustr) list \<Rightarrow> row list \<Rightarrow> pyerror + row list" where
  "sqlite_batch lib headers field_mapping chunk_data =
     (if field_mapping \<noteq> [] then collect (map (sqlite_filtered_row lib headers field_mapping) chunk_data)
      else Inr chunk_data)"

text \<open>
  The loop over the chunks, inside the transaction begun before it: the state is the
  table, \<open>total_rows\<close> and \<open>batch_size\<close>. A raise ends in the handler: \<open>ROLLBACK\<close>,
  then the error again.
\<close>

fun sqlite_loop ::
  "pylib \<Rightarrow> (row list \<Rightarrow> row list \<Rightarrow> bool) \<Rightarrow> ustr list \<Rightarrow> (ustr \<times> ustr) list \<Rightarrow>
   row list list \<Rightarrow> table \<Rightarrow> nat \<Rightarrow> nat \<Rightarrow> table \<times> (pyerror + nat)" where
  "sqlite_loop lib insert_fails headers field_mapping [] db total_rows batch_size =
     (commit db, Inr total_rows)"
| "sqlite_loop lib insert_fails headers field_mapping (chunk_data # data_chunks) db total_rows batch_size =
     (if chunk_data = []
      then sqlite_loop lib insert_fails headers field_mapping data_chunks db total_rows batch_size
      else
        case sqlite_batch lib headers field_mapping chunk_data of
          Inl e \<Rightarrow> (rollback db, Inl e)
        | Inr rows \<Rightarrow>
            if insert_fails (visible db) rows then (rollback db, Inl DatabaseError)
            else
              let db1 = db\<lparr>pending := pending db @ rows\<rparr>;
                  total_rows1 = total_rows + length rows;
                  batch_size1 = batch_size + length rows
              in if batch_size1 \<ge> max_batch_size
                 then sqlite_loop lib insert_fails headers field_mapping data_chunks
                        (commit db1) total_rows1 0
                 else sqlite_loop lib insert_fails headers field_mapping data_chunks
                        db1 total_rows1 batch_size1)"

definition sqlite_write_data ::
  "pylib \<Rightarrow> (row list \<Rightarrow> row list \<Rightarrow> bool) \<Rightarrow> row list list \<Rightarrow> ustr list \<Rightarrow> row list list \<Rightarrow>
   (ustr \<times> ustr) list \<Rightarrow> table \<times> (pyerror + nat)" where
  "sqlite_write_data lib insert_fails before headers data_chunks field_mapping =
     sqlite_loop lib insert_fails headers field_mapping data_chunks
       \<lparr>committed = before, pending = []\<rparr> 0 0"

text \<open>What the loop of \<open>SQLiteDatabase.write_data\<close> establishes, for the proof below:
  \<open>new\<close> are the transactions it committed, \<open>L\<close> bounds the chunks' lengths.\<close>

definition sqlite_post ::
  "(ustr \<times> ustr) list \<Rightarrow> row list list \<Rightarrow> nat \<Rightarrow> table \<Rightarrow> nat \<Rightarrow> nat \<Rightarrow> row list list \<Rightarrow> (pyerror + nat) \<Rightarrow> bool" where
  "sqlite_post m chunks L db tot bs new res =
     ((\<forall>t\<in>set new. length t < max_batch_size + L)
      \<and> (case res of
            Inr n \<Rightarrow> new \<noteq> [] \<and> (\<forall>t\<in>set (butlast new). max_batch_size \<le> length t)
                    \<and> n = tot + length (concat chunks)
                    \<and> length (concat new) = bs + length (concat chunks)
                    \<and> (m = [] \<longrightarrow> concat new = pending db @ concat chunks)
          | Inl e \<Rightarrow> (\<forall>t\<in>set new. max_batch_size \<le> length t)
                    \<and> (m = [] \<longrightarrow> prefix (concat new) (pending db @ concat chunks))))"

subsection \<open>\<open>MySQLDatabase.write_data\<close>\<close>

definition is_nan_fast :: "pyval \<Rightarrow> bool" where
  "is_nan_fast val = (case val of PNone \<Rightarrow> True | PFloat (NaN _) \<Rightarrow> True | _ \<Rightarrow> False)"

definition mapped_indices :: "ustr list \<Rightarrow> (ustr \<times> ustr) list \<Rightarrow> nat list" where
  "mapped_indices headers field_mapping =
     filter (\<lambda>i. in_mapping (headers ! i) field_mapping) [0..<length headers]"

definition max_index :: "nat list \<Rightarrow> nat" where
  "max_index is = foldl max 0 is"

definition mysql_filtered_data :: "ustr list \<Rightarrow> (ustr \<times> ustr) list \<Rightarrow> row list \<Rightarrow> row list" where
  "mysql_filtered_data headers field_mapping all_data =
     (if field_mapping \<noteq> [] \<and> mapped_indices headers field_mapping \<noteq> []
      then map (\<lambda>r. map (\<lambda>i. if is_nan_fast (r ! i) then PNone else r ! i)
                        (mapped_indices headers field_mapping))
             (filter (\<lambda>r. length r > max_index (mapped_indices headers field_mapping)) all_data)
      else map (map (\<lambda>val. if is_nan_fast val then PNone else val)) all_data)"

text \<open>The loop \<open>for i in range(0, len(filtered_data), batch_size)\<close> on the rows from
  \<open>i\<close> on; the last batch is the one after which none is left.\<close>

function mysql_batches ::
  "(row list \<Rightarrow> row list \<Rightarrow> bool) \<Rightarrow> nat \<Rightarrow> row list \<Rightarrow> table \<Rightarrow> nat \<Rightarrow> nat \<Rightarrow> table \<times> (pyerror + nat)" where
  "mysql_batches insert_fails batch_size remaining db total_rows processed_batches =
     (if remaining = [] \<or> batch_size = 0 then (db, Inr total_rows)
      else
        let batch = take batch_size remaining in
        if insert_fails (visible db) batch then (rollback db, Inl DatabaseError)
        else
          let db1 = db\<lparr>pending := pending db @ batch\<rparr>;
              processed1 = processed_batches + 1;
              db2 = (if processed1 mod 10 = 0 \<or> drop batch_size remaining = [] then commit db1 else db1)
          in mysql_batches insert_fails batch_size (drop batch_size remaining) db2
               (total_rows + length batch) processed1)"
  by pat_completeness auto
termination
  by (relation "measure (\<lambda>(f, b, remaining, d, t, p). length remaining)") auto

definition mysql_write_data ::
  "(row list \<Rightarrow> row list \<Rightarrow> bool) \<Rightarrow> table \<Rightarrow> ustr list \<Rightarrow> row list list \<Rightarrow>
   (ustr \<times> ustr) list \<Rightarrow> table \<times> (pyerror + nat)" where
  "mysql_write_data insert_fails db headers data_chunks field_mapping =
     (let all_data = concat (filter (\<lambda>chunk_data. chunk_data \<noteq> []) data_chunks)
      in if all_data = [] then (db, Inr 0)
         else mysql_batches insert_fails 5000
                (mysql_filtered_data headers field_mapping all_data) db 0 0)"

section \<open>Type detection: \<open>detect_column_types\<close>\<close>

subsection \<open>The regular expressions of the classifiers\<close>

text \<open>
  The patterns the classifiers match are sequences of a character class repeated between
  a lower and an optional upper bound. \<open>rx_match\<close> is the match of the whole string
  against such a sequence, with backtracking; \<open>re_match\<close> is \<open>re.match\<close> on a pattern
  \<open>^(alt1|alt2|...)$\<close>, whose \<open>$\<close> also matches before a final line feed.
\<close>

datatype rx_item = Rx "nat \<Rightarrow> bool" nat "nat option"

fun rx_match :: "rx_item list \<Rightarrow> ustr \<Rightarrow> bool" where
  "rx_match [] s = (s = [])"
| "rx_match (Rx p lo hi # items) s =
     list_ex (\<lambda>k. list_all p (take k s) \<and> rx_match items (drop k s))
       [lo..<Suc (case hi of None \<Rightarrow> length s | Some h \<Rightarrow> min h (length s))]"

definition re_match :: "rx_item list list \<Rightarrow> ustr \<Rightarrow> bool" where
  "re_match alts s =
     list_ex (\<lambda>items. rx_match items s \<or> (s \<noteq> [] \<and> last s = 10 \<and> rx_match items (butlast s))) alts"

text \<open>The value of a decimal digit (\<open>\d\<close> matches the characters that have one).\<close>

definition py_digit :: "pylib \<Rightarrow> nat \<Rightarrow> nat option" where
  "py_digit lib c =
     (if c < 128 then (if is_ascii_digit c then Some (c - 48) else None) else uni_digit lib c)"

definition rx_d :: "pylib \<Rightarrow> nat \<Rightarrow> nat option \<Rightarrow> rx_item" where
  "rx_d lib lo hi = Rx (\<lambda>c. py_digit lib c \<noteq> None) lo hi"

definition rx_w :: "pylib \<Rightarrow> nat \<Rightarrow> nat option \<Rightarrow> rx_item" where
  "rx_w lib lo hi = Rx (py_isword lib) lo hi"

definition rx_c :: "nat \<Rightarrow> rx_item" where
  "rx_c c = Rx (\<lambda>x. x = c) 1 (Some 1)"

definition rx_sign :: rx_item where
  "rx_sign = Rx (\<lambda>x. x = 45 \<or> x = 43) 0 (Some 1)"

text \<open>\<open>^[-+]?(\d+\.?\d*|\.\d+)([eE][-+]?\d+)?$\<close>, its alternatives written out.\<close>

definition float_pattern :: "pylib \<Rightarrow> rx_item list list" where
  "float_pattern lib =
     (let mant1 = [rx_sign, rx_d lib 1 None, Rx (\<lambda>x. x = 46) 0 (Some 1), rx_d lib 0 None];
          mant2 = [rx_sign, rx_c 46, rx_d lib 1 None];
          expo = [Rx (\<lambda>x. x = 101 \<or> x = 69) 1 (Some 1), rx_sign, rx_d lib 1 None]
      in [mant1, mant2, mant1 @ expo, mant2 @ expo])"

definition date_patterns :: "pylib \<Rightarrow> rx_item list list" where
  "date_patterns lib =
     (let d4 = rx_d lib 4 (Some 4); d2 = rx_d lib 2 (Some 2); d12 = rx_d lib 1 (Some 2);
          w3 = rx_w lib 3 (Some 3)
      in [[d4, rx_c 45, d12, rx_c 45, d12],
          [d12, rx_c 47, d12, rx_c 47, d4],
          [d4, rx_c 47, d12, rx_c 47, d12],
          [d12, rx_c 45, d12, rx_c 45, d4],
          [d4, rx_c 45, d12, rx_c 45, d12, rx_c 32, d12, rx_c 58, d2, rx_c 58, d2],
          [d12, rx_c 47, d12, rx_c 47, d4, rx_c 32, d12, rx_c 58, d2, rx_c 58, d2],
          [d4, d2, d2],
          [d12, rx_c 45, w3, rx_c 45, d4],
          [w3, rx_c 32, d12, rx_c 44, rx_c 32, d4]])"

subsection \<open>The classifiers\<close>

text \<open>\<open>int(s)\<close> on a string: white space around, a sign, then decimal digits, with
  single underscores between digits; \<open>None\<close> is the \<open>ValueError\<close>.\<close>

definition py_int :: "pylib \<Rightarrow> ustr \<Rightarrow> int option" where
  "py_int lib s =
     (let t = py_strip lib s;
          neg = (t \<noteq> [] \<and> hd t = 45);
          body = (if t \<noteq> [] \<and> (hd t = 45 \<or> hd t = 43) then tl t else t)
      in if body = [] \<or> hd body = 95 \<or> last body = 95 \<or> sublist [95, 95] body
            \<or> \<not> list_all (\<lambda>c. c = 95 \<or> py_digit lib c \<noteq> None) body
         then None
         else Some ((if neg then - 1 else 1)
                    * int (foldl (\<lambda>a c. 10 * a + the (py_digit lib c)) 0
                             (filter (\<lambda>c. c \<noteq> 95) body))))"

definition in_int64 :: "int \<Rightarrow> bool" where
  "in_int64 i = (- 9223372036854775808 \<le> i \<and> i \<le> 9223372036854775807)"

text \<open>A \<open>bool\<close> is an \<open>int\<close> for \<open>isinstance\<close>.\<close>

definition is_integer_value :: "pylib \<Rightarrow> pyval \<Rightarrow> bool" where
  "is_integer_value lib v =
     (case v of
        PBool b \<Rightarrow> True
      | PInt i \<Rightarrow> in_int64 i
      | PStr s \<Rightarrow>
          (let stripped_value = py_strip lib s
           in if length stripped_value > 20 then False
              else (case py_int lib stripped_value of
                      None \<Rightarrow> False
                    | Some parsed_int \<Rightarrow> in_int64 parsed_int))
      | _ \<Rightarrow> False)"

definition float_abs_gt_2_53 :: "pyfloat \<Rightarrow> bool" where
  "float_abs_gt_2_53 f = (case f of Fin r \<Rightarrow> \<bar>r\<bar> > 2 ^ 53 | PInf \<Rightarrow> True | NInf \<Rightarrow> True | NaN i \<Rightarrow> False)"

definition float_is_integer :: "pyfloat \<Rightarrow> bool" where
  "float_is_integer f = (case f of Fin r \<Rightarrow> r = of_int \<lfloor>r\<rfloor> | _ \<Rightarrow> False)"

definition is_float_value :: "pylib \<Rightarrow> pyval \<Rightarrow> bool" where
  "is_float_value lib v =
     (case v of
        PFloat f \<Rightarrow> True
      | PStr s \<Rightarrow>
          (let s1 = py_strip lib s
           in if re_match (float_pattern lib) s1
              then if 46 \<in> set s1 \<or> 101 \<in> set (py_lower lib s1)
                   then (case float_parse lib s1 of
                           None \<Rightarrow> False
                         | Some parsed \<Rightarrow>
                             if float_abs_gt_2_53 parsed
                             then 46 \<in> set s1
                                  \<and> \<not> (let z = rev (dropWhile (\<lambda>c. c = 48) (rev s1))
                                        in z \<noteq> [] \<and> last z = 46)
                             else \<not> float_is_integer parsed)
                   else False
              else False)
      | _ \<Rightarrow> False)"

definition is_date_value :: "pylib \<Rightarrow> pyval \<Rightarrow> bool" where
  "is_date_value lib v =
     (case v of
        PDatetime d \<Rightarrow> True
      | PStr s \<Rightarrow> re_match (date_patterns lib) (py_strip lib s)
      | _ \<Rightarrow> False)"

definition is_boolean_token :: "pylib \<Rightarrow> pyval \<Rightarrow> bool" where
  "is_boolean_token lib x =
     (py_lower lib (py_str lib x)
        \<in> {u ''true'', u ''false'', u ''0'', u ''1'', u ''yes'', u ''no''})"

subsection \<open>Counting and the decision for a column\<close>

datatype db_type = SQLite | MySQL

record type_counters =
  n_integer :: nat
  n_float :: nat
  n_date :: nat
  n_boolean :: nat
  n_long_text :: nat
  max_str_length :: nat

definition count_value :: "pylib \<Rightarrow> type_counters \<Rightarrow> pyval \<Rightarrow> type_counters" where
  "count_value lib tc x =
     (let str_len = length (py_str lib x);
          tc1 = tc\<lparr>max_str_length := max (max_str_length tc) str_len\<rparr>;
          tc2 = (if is_integer_value lib x then tc1\<lparr>n_integer := n_integer tc1 + 1\<rparr>
                 else if is_float_value lib x then tc1\<lparr>n_float := n_float tc1 + 1\<rparr>
                 else if is_date_value lib x then tc1\<lparr>n_date := n_date tc1 + 1\<rparr>
                 else if is_boolean_token lib x then tc1\<lparr>n_boolean := n_boolean tc1 + 1\<rparr>
                 else tc1)
      in if (case x of PStr s \<Rightarrow> True | _ \<Rightarrow> False) \<and> str_len > 255
         then tc2\<lparr>n_long_text := n_long_text tc2 + 1\<rparr> else tc2)"

definition count_types :: "pylib \<Rightarrow> pyval list \<Rightarrow> type_counters" where
  "count_types lib non_empty =
     foldl (count_value lib)
       \<lparr>n_integer = 0, n_float = 0, n_date = 0, n_boolean = 0, n_long_text = 0, max_str_length = 0\<rparr>
       non_empty"

text \<open>
  \<open>int(total_values * 0.95)\<close> in binary64. The double nearest to 0.95 is
  \<open>8556839292003942 / 2^53\<close>; the product with the (exactly represented) count is
  rounded to 53 significant bits, ties to even, and \<open>int\<close> truncates.
\<close>

fun bitlen :: "nat \<Rightarrow> nat" where
  "bitlen n = (if n = 0 then 0 else Suc (bitlen (n div 2)))"

declare bitlen.simps [simp del]

definition round53 :: "nat \<Rightarrow> nat" where
  "round53 p =
     (if bitlen p \<le> 53 then p
      else let s = bitlen p - 53; q = p div 2 ^ s; r = p mod 2 ^ s; half = 2 ^ (s - 1)
           in (if r > half \<or> (r = half \<and> odd q) then q + 1 else q) * 2 ^ s)"

definition int_times_095 :: "nat \<Rightarrow> nat" where
  "int_times_095 total_values = round53 (total_values * 8556839292003942) div 2 ^ 53"

text \<open>The check, for every count up to \<open>k\<close>, that the truncated binary64 product is
  \<open>floor(95 n / 100)\<close>.\<close>

fun truncation_agrees_upto :: "nat \<Rightarrow> bool" where
  "truncation_agrees_upto 0 = (int_times_095 0 = 0)"
| "truncation_agrees_upto (Suc k) =
     (int_times_095 (Suc k) = 95 * Suc k div 100 \<and> truncation_agrees_upto k)"

definition threshold :: "nat \<Rightarrow> nat" where
  "threshold total_values = max 1 (int_times_095 total_values)"

definition default_type :: "db_type \<Rightarrow> ustr" where
  "default_type db = (if db = SQLite then u ''TEXT'' else u ''VARCHAR(255)'')"

definition varchar :: "nat \<Rightarrow> ustr" where
  "varchar n = u ''VARCHAR('' @ digits_of n @ u '')''"

definition is_blank :: "pylib \<Rightarrow> pyval \<Rightarrow> bool" where
  "is_blank lib x = (py_strip lib (py_str lib x) = [])"

text \<open>
  The body of the loop over the columns, with its handler. The first statement of the
  \<open>try\<close> takes \<open>str(x)\<close> of every value of the column, so a value on which \<open>str\<close> raises
  sends the column to the handler, which gives the default text type. Nothing else in the
  \<open>try\<close> raises: the classifiers catch their own errors.
\<close>

definition column_type :: "pylib \<Rightarrow> db_type \<Rightarrow> nat \<Rightarrow> bool \<Rightarrow> pyval list \<Rightarrow> ustr" where
  "column_type lib db i is_potential_pk column_data =
     (if list_ex str_raises column_data then default_type db
      else
      let non_empty = filter (\<lambda>x. x \<noteq> PNone \<and> \<not> is_blank lib x) column_data
      in if non_empty = [] then default_type db
         else
           let tc = count_types lib non_empty;
               total_values = length non_empty;
               th = threshold total_values
           in if n_integer tc \<ge> th
              then (if db = SQLite
                    then (if i = 0 \<and> is_potential_pk then u ''INTEGER PRIMARY KEY'' else u ''INTEGER'')
                    else (if i = 0 \<and> is_potential_pk then u ''INT AUTO_INCREMENT PRIMARY KEY''
                          else u ''INT''))
              else if n_float tc \<ge> th then (if db = SQLite then u ''REAL'' else u ''DOUBLE'')
              else if n_date tc \<ge> th then (if db = SQLite then u ''DATE'' else u ''DATETIME'')
              else if n_boolean tc \<ge> th then (if db = SQLite then u ''BOOLEAN'' else u ''TINYINT(1)'')
              else if n_long_text tc > 0 then u ''TEXT''
              else
                let safe_length = min (max (max_str_length tc + 50) 100) 255
                in if db = SQLite then u ''TEXT'' else varchar safe_length)"

subsection \<open>The sample: primary key, columns, padding\<close>

text \<open>
  The element of a \<open>set\<close> a value stands for: numbers of every type by their value (so
  \<open>1\<close>, \<open>1.0\<close> and \<open>True\<close> are one element), a NaN by its object.
\<close>

datatype pykey = KNone | KNum rat | KPosInf | KNegInf | KNaN nat | KStr ustr | KDatetime pydt

fun py_key :: "pyval \<Rightarrow> pykey" where
  "py_key PNone = KNone"
| "py_key (PBool b) = KNum (if b then 1 else 0)"
| "py_key (PInt i) = KNum (of_int i)"
| "py_key (PFloat (Fin r)) = KNum r"
| "py_key (PFloat PInf) = KPosInf"
| "py_key (PFloat NInf) = KNegInf"
| "py_key (PFloat (NaN i)) = KNaN i"
| "py_key (PStr s) = KStr s"
| "py_key (PDatetime d) = KDatetime d"

definition first_col_values :: "row list \<Rightarrow> pyval list" where
  "first_col_values sample_data =
     map hd (filter (\<lambda>r. r \<noteq> [] \<and> hd r \<noteq> PNone) sample_data)"

definition is_potential_pk :: "row list \<Rightarrow> bool" where
  "is_potential_pk sample_data =
     (length (first_col_values sample_data) = length (remdups (map py_key (first_col_values sample_data)))
      \<and> length (first_col_values sample_data) > 0)"

definition max_cols :: "row list \<Rightarrow> nat" where
  "max_cols sample_data = max_index (map length (filter (\<lambda>r. r \<noteq> []) sample_data))"

text \<open>Column \<open>i\<close>: the values at index \<open>i\<close> of the rows that reach it, without \<open>None\<close>.\<close>

definition column :: "row list \<Rightarrow> nat \<Rightarrow> pyval list" where
  "column sample_data i =
     filter (\<lambda>x. x \<noteq> PNone) (map (\<lambda>r. r ! i) (filter (\<lambda>r. i < length r) sample_data))"

definition detect_column_types :: "pylib \<Rightarrow> row list \<Rightarrow> ustr list \<Rightarrow> db_type \<Rightarrow> ustr list" where
  "detect_column_types lib sample_data headers db =
     (if sample_data = [] \<or> headers = [] then replicate (length headers) (default_type db)
      else if filter (\<lambda>r. r \<noteq> []) sample_data = [] then replicate (length headers) (default_type db)
      else
        let detected_types =
              map (\<lambda>i. column_type lib db i (is_potential_pk sample_data) (column sample_data i))
                [0..<max_cols sample_data]
        in detected_types @ replicate (length headers - length detected_types) (default_type db))"

subsection \<open>The categories, for stating what the counters count\<close>

text \<open>
  The category of a value is the first test of the chain of \<open>count_value\<close> that it
  passes; \<open>type_category\<close> is the category a type name stands for, \<open>CatOther\<close> for
  the text types.
\<close>

datatype category = CatInteger | CatFloat | CatDate | CatBoolean | CatOther

definition category_of :: "pylib \<Rightarrow> pyval \<Rightarrow> category" where
  "category_of lib x =
     (if is_integer_value lib x then CatInteger
      else if is_float_value lib x then CatFloat
      else if is_date_value lib x then CatDate
      else if is_boolean_token lib x then CatBoolean
      else CatOther)"

definition category_count :: "pylib \<Rightarrow> category \<Rightarrow> pyval list \<Rightarrow> nat" where
  "category_count lib c xs = length (filter (\<lambda>x. category_of lib x = c) xs)"

definition non_empty_values :: "pylib \<Rightarrow> pyval list \<Rightarrow> pyval list" where
  "non_empty_values lib column_data = filter (\<lambda>x. x \<noteq> PNone \<and> \<not> is_blank lib x) column_data"

definition is_long_str :: "pyval \<Rightarrow> bool" where
  "is_long_str x = (case x of PStr s \<Rightarrow> length s > 255 | _ \<Rightarrow> False)"


definition counters_ok :: "pylib \<Rightarrow> type_counters \<Rightarrow> pyval list \<Rightarrow> type_counters \<Rightarrow> bool" where
  "counters_ok lib tc xs tc' =
     (n_integer tc' = n_integer tc + category_count lib CatInteger xs
      \<and> n_float tc' = n_float tc + category_count lib CatFloat xs
      \<and> n_date tc' = n_date tc + category_count lib CatDate xs
      \<and> n_boolean tc' = n_boolean tc + category_count lib CatBoolean xs
      \<and> n_long_text tc' = n_long_text tc + length (filter is_long_str xs)
      \<and> max_str_length tc' = max (max_str_length tc) (max_index (map (\<lambda>x. length (py_str lib x)) xs)))"

section \<open>Identifier sanitization\<close>
























section \<open>A library instance for concrete inputs\<close>

text \<open>An integer of 301 digits, beyond the 64-bit range.\<close>

definition big_int :: int where
  "big_int = 10 ^ 300"

text \<open>An integer of 4301 digits, one more than \<open>str\<close> accepts.\<close>

definition huge_int :: int where
  "huge_int = 10 ^ 4300"


text \<open>
  An instance of the library on which the definitions can be run at concrete inputs:
  its tables are empty beyond ASCII, its float and date functions fail, and its digest is
  the same for every string (the MD5 of the empty string). It is used at inputs on which
  the program consults none of these: ASCII strings, one string with a surrogate code point
  (which is no word character, letter or white space, as the tables say), and cells that
  are not finite floats.
\<close>

definition ascii_lib :: pylib where
  "ascii_lib =
     \<lparr>uni_isspace = (\<lambda>c. False), uni_isword = (\<lambda>c. False), uni_isalpha = (\<lambda>c. False),
      uni_digit = (\<lambda>c. None), uni_upper = (\<lambda>c. [c]), uni_lower = (\<lambda>c. [c]),
      uni_cc_cf = (\<lambda>c. False), float_parse = (\<lambda>s. None), float_repr = (\<lambda>f. u ''0.0''),
      lib_strftime = (\<lambda>d f. None), lib_strptime_ymd = (\<lambda>s. None),
      md5_hex = (\<lambda>s. u ''d41d8cd98f00b204e9800998ecf8427e'')\<rparr>"

section \<open>Theorems\<close>

subsection \<open>Reassembly\<close>

lemma update_fresh: "k \<notin> fst ` set d \<Longrightarrow> AList.update k v d = d @ [(k, v)]"
  by (induction d) auto

lemma foldl_store_distinct:
  "distinct (map fst (d @ cs)) \<Longrightarrow>
   foldl store_result d cs = d @ filter (\<lambda>r. snd r \<noteq> []) cs"
proof (induction cs arbitrary: d)
  case Nil
  then show ?case by simp
next
  case (Cons c cs)
  show ?case
  proof (cases "snd c = []")
    case True
    have "distinct (map fst (d @ cs))" using Cons.prems by auto
    then show ?thesis using Cons.IH [of d] True by (simp add: store_result_def)
  next
    case False
    have fresh: "fst c \<notin> fst ` set d" using Cons.prems by auto
    have "distinct (map fst ((d @ [c]) @ cs))" using Cons.prems by auto
    from Cons.IH [OF this] show ?thesis
      using False fresh by (simp add: store_result_def update_fresh)
  qed
qed

lemma filter_key_single:
  "distinct l \<Longrightarrow> inj_on fst (set l) \<Longrightarrow> k \<in> set l \<Longrightarrow> filter (\<lambda>x. fst k = fst x) l = [k]"
proof (induction l)
  case Nil
  then show ?case by simp
next
  case (Cons a l)
  show ?case
  proof (cases "k = a")
    case True
    have "\<forall>x\<in>set l. fst x \<noteq> fst a"
      using Cons.prems(1,2) by (auto simp: inj_on_def)
    then have "filter (\<lambda>x. fst a = fst x) l = []" by (auto simp: filter_empty_conv)
    then show ?thesis using True by simp
  next
    case False
    then have kl: "k \<in> set l" using Cons.prems(3) by simp
    have "fst k \<noteq> fst a" using False Cons.prems(2,3) by (auto simp: inj_on_def)
    moreover have "filter (\<lambda>x. fst k = fst x) l = [k]"
      using Cons.IH Cons.prems(1,2) kl by simp
    ultimately show ?thesis by simp
  qed
qed

lemma sort_key_fst_perm:
  assumes "mset xs = mset ys" and "distinct (map fst xs)"
  shows "sort_key fst xs = sort_key fst ys"
proof (rule properties_for_sort_key)
  show "mset (sort_key fst ys) = mset xs" using assms by simp
  show "sorted (map fst (sort_key fst ys))" by simp
  fix k assume "k \<in> set (sort_key fst ys)"
  have dx: "distinct xs" using assms(2) by (rule distinct_map [THEN iffD1, THEN conjunct1])
  have injx: "inj_on fst (set xs)" using assms(2) by (simp add: distinct_map)
  have dy: "distinct ys" using dx mset_eq_imp_distinct_iff [OF assms(1)] by simp
  have sety: "set ys = set xs" using mset_eq_setD [OF assms(1)] by simp
  have ds: "distinct (sort_key fst ys)" using dy by simp
  show "filter (\<lambda>x. fst k = fst x) (sort_key fst ys) = filter (\<lambda>x. fst k = fst x) xs"
    using filter_key_single [of xs k] filter_key_single [of "sort_key fst ys" k]
      dx injx ds sety \<open>k \<in> set (sort_key fst ys)\<close> by simp
qed

lemma sort_key_sorted_id: "sorted (map f xs) \<Longrightarrow> sort_key f xs = xs"
  by (rule properties_for_sort_key) auto

lemma reassemble_general:
  assumes "mset order = mset [0..<n]"
  shows "reassemble (map (\<lambda>i. (i, res i)) order) = filter (\<lambda>c. c \<noteq> []) (map res [0..<n])"
proof -
  let ?mk = "\<lambda>i. (i, res i)"
  let ?ne = "\<lambda>r::nat \<times> 'a list. snd r \<noteq> []"
  have dord: "distinct order" using mset_eq_imp_distinct_iff [OF assms] by simp
  have dk: "distinct (map fst (map ?mk order))" using dord by (simp add: comp_def)
  have st: "foldl store_result [] (map ?mk order) = filter ?ne (map ?mk order)"
    using foldl_store_distinct [of "[]" "map ?mk order"] dk by simp
  have ms: "mset (filter ?ne (map ?mk order)) = mset (filter ?ne (map ?mk [0..<n]))"
  proof -
    have "filter_mset ?ne (image_mset ?mk (mset order)) =
          filter_mset ?ne (image_mset ?mk (mset [0..<n]))"
      by (simp only: assms)
    then show ?thesis by (simp only: mset_map mset_filter)
  qed
  have dk2: "distinct (map fst (filter ?ne (map ?mk order)))"
    using dk by (simp add: distinct_map_filter)
  have srt: "sorted (map fst (filter ?ne (map ?mk [0..<n])))"
    by (rule sorted_filter) (simp add: comp_def)
  have "sort_key fst (filter ?ne (map ?mk order)) = sort_key fst (filter ?ne (map ?mk [0..<n]))"
    using sort_key_fst_perm [OF ms dk2] .
  also have "\<dots> = filter ?ne (map ?mk [0..<n])" using srt by (rule sort_key_sorted_id)
  finally show ?thesis
    by (simp add: reassemble_def st filter_map comp_def)
qed

lemma windows_take: "concat (map (\<lambda>i. take w (drop (i * w) rows)) [0..<k]) = take (k * w) rows"
proof (induction k)
  case 0
  then show ?case by simp
next
  case (Suc k)
  have "take (k * w) rows @ take w (drop (k * w) rows) = take (k * w + w) rows"
    by (simp add: take_add)
  then show ?case using Suc by (simp add: add.commute)
qed

lemma total_chunks_cover: "0 < w \<Longrightarrow> r \<le> total_chunks r w * w"
proof -
  assume w: "0 < w"
  have "r + w - 1 = (r + w - 1) div w * w + (r + w - 1) mod w" by simp
  moreover have "(r + w - 1) mod w < w" using w by simp
  ultimately show ?thesis unfolding total_chunks_def by linarith
qed

lemma windows_cover:
  "0 < w \<Longrightarrow>
   concat (map (\<lambda>i. take w (drop (i * w) rows)) [0..<total_chunks (length rows) w]) = rows"
  by (simp add: windows_take total_chunks_cover)




lemma perm_of_indexed:
  assumes "mset completed = mset (map (\<lambda>i. (i, res i)) [0..<n])"
  shows "completed = map (\<lambda>i. (i, res i)) (map fst completed) \<and> mset (map fst completed) = mset [0..<n]"
proof -
  let ?mk = "\<lambda>i. (i, res i)"
  have "set completed = set (map ?mk [0..<n])" using mset_eq_setD [OF assms] .
  then have "\<forall>x\<in>set completed. ?mk (fst x) = x" by auto
  then have a: "map ?mk (map fst completed) = completed" by (simp add: map_idI)
  have "image_mset fst (mset completed) = image_mset fst (mset (map ?mk [0..<n]))"
    by (simp only: assms)
  then have b: "mset (map fst completed) = mset [0..<n]"
    by (simp add: comp_def flip: mset_map)
  show ?thesis using a b by simp
qed

lemma concat_filter_nonempty: "concat (filter (\<lambda>c. c \<noteq> []) xs) = concat xs"
  by (induction xs) auto

lemma worker_concat:
  assumes "\<forall>a b. worker (a @ b) = worker a @ worker b"
  shows "concat (map worker xs) = worker (concat xs)"
proof -
  have e: "worker [] = []" using assms [rule_format, of "[]" "[]"] by simp
  show ?thesis by (induction xs) (simp_all add: e assms)
qed

text \<open>
  C1. Whatever the order in which the chunk results complete (any permutation of the
  results of the tasks, each completing once), the chunks handed to the write step are the
  non-empty results in ascending chunk index, so the rows handed over are the
  concatenation of the chunk results in ascending chunk-index order. When the tasks
  partition the rows of the file (a positive chunk size, an exact row estimate) and the
  worker treats each row on its own, that is the result of the worker on the rows in source
  order.
\<close>

theorem reassembly_in_source_order:
  assumes "mset completed =
           mset (map (run_task worker file_lines) (make_tasks estimated_rows chunk_size has_header))"
  shows "reassemble completed =
           filter (\<lambda>c. c \<noteq> [])
             (map (\<lambda>t. worker (task_window file_lines t))
                (make_tasks estimated_rows chunk_size has_header))
         \<and> concat (reassemble completed) =
           concat (map (\<lambda>t. worker (task_window file_lines t))
                     (make_tasks estimated_rows chunk_size has_header))
         \<and> (0 < chunk_size \<and> estimated_rows = length rows
              \<and> file_lines = (if has_header then header # rows else rows)
              \<and> (\<forall>a b. worker (a @ b) = worker a @ worker b)
            \<longrightarrow> concat (reassemble completed) = worker rows)"
proof -
  let ?n = "total_chunks estimated_rows chunk_size"
  let ?task = "\<lambda>i. \<lparr>chunk_id = i, skiprows = i * chunk_size + (if has_header then 1 else 0),
                      nrows = chunk_size\<rparr>"
  let ?res = "\<lambda>i. worker (task_window file_lines (?task i))"
  let ?ts = "make_tasks estimated_rows chunk_size has_header"
  have ts: "map (run_task worker file_lines) ?ts = map (\<lambda>i. (i, ?res i)) [0..<?n]"
    by (simp add: make_tasks_def run_task_def comp_def)
  have ws: "map (\<lambda>t. worker (task_window file_lines t)) ?ts = map ?res [0..<?n]"
    by (simp add: make_tasks_def comp_def)
  from assms ts have "mset completed = mset (map (\<lambda>i. (i, ?res i)) [0..<?n])" by simp
  from perm_of_indexed [OF this]
  have c: "completed = map (\<lambda>i. (i, ?res i)) (map fst completed)"
    and p: "mset (map fst completed) = mset [0..<?n]" by auto
  have r: "reassemble completed = filter (\<lambda>c. c \<noteq> []) (map ?res [0..<?n])"
    using reassemble_general [OF p, of ?res] c by simp
  have k: "concat (reassemble completed) = concat (map ?res [0..<?n])"
    by (simp only: r concat_filter_nonempty)
  have s: "concat (reassemble completed) = worker rows"
    if h: "0 < chunk_size" "estimated_rows = length rows"
      "file_lines = (if has_header then header # rows else rows)"
      "\<forall>a b. worker (a @ b) = worker a @ worker b"
  proof -
    have w: "task_window file_lines (?task i) = take chunk_size (drop (i * chunk_size) rows)" for i
      using h(3) by (simp add: task_window_def)
    have "concat (map ?res [0..<?n]) =
          worker (concat (map (\<lambda>i. take chunk_size (drop (i * chunk_size) rows)) [0..<?n]))"
      using worker_concat [OF h(4), of "map (\<lambda>i. take chunk_size (drop (i * chunk_size) rows)) [0..<?n]"]
      by (simp add: w comp_def)
    also have "\<dots> = worker rows" using windows_cover [OF h(1), of rows] h(2) by simp
    finally show ?thesis using k by simp
  qed
  show ?thesis using r k s ws by simp
qed

theorem reassembly_in_source_order_witness:
  "reassemble [(2, [50::nat]), (0, [10, 20]), (1, [30, 40])] = [[10, 20], [30, 40], [50]]
   \<and> concat (reassemble [(2, [50::nat]), (0, [10, 20]), (1, [30, 40])]) = [10, 20, 30, 40, 50]"
proof -
  let ?w = "map (\<lambda>x::nat. 10 * x)"
  have tasks: "make_tasks 5 2 True =
     [\<lparr>chunk_id = 0, skiprows = 1, nrows = 2\<rparr>, \<lparr>chunk_id = 1, skiprows = 3, nrows = 2\<rparr>,
      \<lparr>chunk_id = 2, skiprows = 5, nrows = 2\<rparr>]"
    by (simp add: make_tasks_def total_chunks_def upt_rec)
  have m: "mset [(2, [50::nat]), (0, [10, 20]), (1, [30, 40])] =
        mset (map (run_task ?w [0, 1, 2, 3, 4, 5]) (make_tasks 5 2 True))"
    by (simp add: tasks run_task_def task_window_def)
  have hom: "\<forall>a b. ?w (a @ b) = ?w a @ ?w b" by simp
  show ?thesis
    using reassembly_in_source_order [OF m, of "[1, 2, 3, 4, 5]" 0] hom
    by (simp add: tasks task_window_def)
qed

subsection \<open>Transform rules\<close>





subsection \<open>The chunk worker\<close>

text \<open>
  C7. \<open>process_chunk\<close> always returns a pair and never propagates an exception. When
  the read raises, or the vectorised path raises and the row-level fallback raises too,
  the pair is the chunk id with the empty row list; the coordinator then stores nothing
  for the chunk and adds nothing to its row count, so the load goes on and the chunk
  shows only as rows missing from the count.
\<close>

theorem process_chunk_failure_yields_no_rows:
  assumes "(\<exists>e. read_frame pd t = Inl e)
           \<or> (\<exists>df df_then e. read_frame pd t = Inr df \<and> vectorized pd df = Inl df_then
                 \<and> fallback_rows lib transform_rules headers df_then = Inl e)"
  shows "process_chunk lib pd transform_rules headers t = (chunk_id t, [])
         \<and> store_result d (process_chunk lib pd transform_rules headers t) = d
         \<and> count_result n (process_chunk lib pd transform_rules headers t) = n"
proof -
  have "process_chunk lib pd transform_rules headers t = (chunk_id t, [])"
    using assms by (auto simp: process_chunk_def)
  then show ?thesis by (simp add: store_result_def count_result_def)
qed

lemma split_once_58: "split_once 58 (u ''replace:x'') = [u ''replace'', u ''x'']"
  by (simp add: u_def)

lemma fallback_fails_example:
  "fallback_rows ascii_lib [u ''a'' \<mapsto> u ''replace:x''] [u ''a''] [[PStr (u ''v'')]] = Inl ValueError"
  by (simp add: fallback_rows_def fallback_cell_def apply_column_transformation_def
      py_lower_def lower_char_def is_ascii_upper_def u_def)

theorem process_chunk_failure_yields_no_rows_witness:
  "process_chunk ascii_lib
     \<lparr>read_frame = (\<lambda>t. Inr [[PStr (u ''v'')]]), vectorized = (\<lambda>df. Inl df)\<rparr>
     [u ''a'' \<mapsto> u ''replace:x''] [u ''a''] \<lparr>chunk_id = 3, skiprows = 7, nrows = 2\<rparr> = (3, [])
   \<and> store_result [(0, [[PInt 1]])]
       (process_chunk ascii_lib
         \<lparr>read_frame = (\<lambda>t. Inr [[PStr (u ''v'')]]), vectorized = (\<lambda>df. Inl df)\<rparr>
         [u ''a'' \<mapsto> u ''replace:x''] [u ''a''] \<lparr>chunk_id = 3, skiprows = 7, nrows = 2\<rparr>)
       = [(0, [[PInt 1]])]"
proof -
  let ?pd = "\<lparr>read_frame = (\<lambda>t. Inr [[PStr (u ''v'')]]), vectorized = (\<lambda>df. Inl df)\<rparr>"
  let ?t = "\<lparr>chunk_id = 3, skiprows = 7, nrows = 2\<rparr>"
  have "(\<exists>e. read_frame ?pd ?t = Inl e)
        \<or> (\<exists>df df_then e. read_frame ?pd ?t = Inr df \<and> vectorized ?pd df = Inl df_then
              \<and> fallback_rows ascii_lib [u ''a'' \<mapsto> u ''replace:x''] [u ''a''] df_then = Inl e)"
    using fallback_fails_example by simp
  from process_chunk_failure_yields_no_rows [OF this, of "[(0, [[PInt 1]])]" 0]
  have a: "process_chunk ascii_lib ?pd [u ''a'' \<mapsto> u ''replace:x''] [u ''a''] ?t = (chunk_id ?t, [])"
    and b: "store_result [(0, [[PInt 1]])]
       (process_chunk ascii_lib ?pd [u ''a'' \<mapsto> u ''replace:x''] [u ''a''] ?t) = [(0, [[PInt 1]])]"
    by blast+
  show ?thesis
  proof (intro conjI)
    show "process_chunk ascii_lib ?pd [u ''a'' \<mapsto> u ''replace:x''] [u ''a''] ?t = (3, [])"
      using a by simp
    show "store_result [(0, [[PInt 1]])]
       (process_chunk ascii_lib ?pd [u ''a'' \<mapsto> u ''replace:x''] [u ''a''] ?t) = [(0, [[PInt 1]])]"
      by (rule b)
  qed
qed

subsection \<open>MySQL write\<close>

lemma foldl_max_ge: "foldl max (a::nat) xs = max a (foldl max 0 xs)"
proof (induction xs arbitrary: a)
  case Nil
  then show ?case by simp
next
  case (Cons x xs)
  have "foldl max (max a x) xs = max (max a x) (foldl max 0 xs)" by (rule Cons.IH)
  moreover have "foldl max x xs = max x (foldl max 0 xs)" by (rule Cons.IH)
  ultimately show ?case by (simp add: max.assoc)
qed

lemma max_index_Max: "xs \<noteq> [] \<Longrightarrow> max_index xs = Max (set xs)"
proof (induction xs)
  case Nil
  then show ?case by simp
next
  case (Cons x xs)
  show ?case
  proof (cases "xs = []")
    case True
    then show ?thesis by (simp add: max_index_def)
  next
    case False
    then have "max_index xs = Max (set xs)" by (rule Cons.IH)
    moreover have "max_index (x # xs) = max x (max_index xs)"
      using foldl_max_ge [of x xs] by (simp add: max_index_def)
    ultimately show ?thesis using False by simp
  qed
qed

lemma concat_filter_chunks:
  "concat (filter (\<lambda>c. c \<noteq> []) (map (filter P) chunks)) = filter P (concat chunks)"
  by (induction chunks) auto

lemma concat_nonempty_chunks: "concat (filter (\<lambda>c. c \<noteq> []) chunks) = concat chunks"
  by (induction chunks) auto

lemma mysql_batches_nil: "mysql_batches f b [] db t p = (db, Inr t)"
  by simp

lemma mysql_batches_count:
  "0 < b \<Longrightarrow> mysql_batches f b remaining db t p = (db', Inr n) \<Longrightarrow> n = t + length remaining"
proof (induction f b remaining db t p rule: mysql_batches.induct)
  case (1 f b remaining db t p)
  show ?case
  proof (cases "remaining = []")
    case True
    then show ?thesis using "1.prems" by simp
  next
    case False
    let ?batch = "take b remaining"
    let ?db1 = "db\<lparr>pending := pending db @ ?batch\<rparr>"
    let ?db2 = "if (p + 1) mod 10 = 0 \<or> drop b remaining = [] then commit ?db1 else ?db1"
    have nf: "\<not> f (visible db) ?batch"
      using "1.prems" False by (auto simp: Let_def split: if_splits)
    have step: "mysql_batches f b remaining db t p =
          mysql_batches f b (drop b remaining) ?db2 (t + length ?batch) (p + 1)"
      using False nf "1.prems"(1) by (subst mysql_batches.simps) (simp add: Let_def)
    have "n = (t + length ?batch) + length (drop b remaining)"
      using "1.IH" [OF _ refl nf refl refl refl "1.prems"(1)] False "1.prems" step by simp
    then show ?thesis by simp
  qed
qed


text \<open>
  C9. Under a field mapping that names at least one header, \<open>MySQLDatabase.write_data\<close>
  writes exactly the rows longer than the largest mapped column index, each cut down to
  its mapped columns: a shorter row is left out of the insert and of the returned count,
  and the outcome is the one of the same call without the shorter rows, so they raise
  nothing.
\<close>

theorem mysql_mapping_skips_short_rows:
  assumes "field_mapping \<noteq> []" and "mapped_indices headers field_mapping \<noteq> []"
  shows "mysql_filtered_data headers field_mapping all_data =
           map (\<lambda>r. map (\<lambda>i. if is_nan_fast (r ! i) then PNone else r ! i)
                        (mapped_indices headers field_mapping))
             (filter (\<lambda>r. Max (set (mapped_indices headers field_mapping)) < length r) all_data)
         \<and> mysql_write_data insert_fails db headers data_chunks field_mapping =
           mysql_write_data insert_fails db headers
             (map (filter (\<lambda>r. Max (set (mapped_indices headers field_mapping)) < length r))
                data_chunks)
             field_mapping
         \<and> (\<forall>db' n. mysql_write_data insert_fails db headers data_chunks field_mapping = (db', Inr n)
              \<longrightarrow> n = length (filter (\<lambda>r. Max (set (mapped_indices headers field_mapping)) < length r)
                               (concat data_chunks)))"
proof -
  let ?mi = "mapped_indices headers field_mapping"
  let ?long = "\<lambda>r::row. Max (set ?mi) < length r"
  let ?proj = "\<lambda>r::row. map (\<lambda>i. if is_nan_fast (r ! i) then PNone else r ! i) ?mi"
  have mx: "max_index ?mi = Max (set ?mi)" using assms(2) by (rule max_index_Max)
  have fd: "mysql_filtered_data headers field_mapping xs = map ?proj (filter ?long xs)" for xs
    using assms by (simp add: mysql_filtered_data_def mx)
  have fd2: "mysql_filtered_data headers field_mapping (filter ?long xs) =
             mysql_filtered_data headers field_mapping xs" for xs
    by (simp add: fd)
  have c1: "concat (filter (\<lambda>c. c \<noteq> []) (map (filter ?long) data_chunks)) =
            filter ?long (concat data_chunks)"
    by (rule concat_filter_chunks)
  have c2: "concat (filter (\<lambda>c. c \<noteq> []) data_chunks) = concat data_chunks"
    by (rule concat_nonempty_chunks)
  have w1: "mysql_write_data insert_fails db headers data_chunks field_mapping =
        (if concat data_chunks = [] then (db, Inr 0)
         else mysql_batches insert_fails 5000 (map ?proj (filter ?long (concat data_chunks))) db 0 0)"
    by (simp only: mysql_write_data_def Let_def c2 fd)
  have w2: "mysql_write_data insert_fails db headers (map (filter ?long) data_chunks) field_mapping =
        (if filter ?long (concat data_chunks) = [] then (db, Inr 0)
         else mysql_batches insert_fails 5000 (map ?proj (filter ?long (concat data_chunks))) db 0 0)"
    by (simp only: mysql_write_data_def Let_def c1 fd2) (simp only: fd)
  have same: "mysql_write_data insert_fails db headers data_chunks field_mapping =
        mysql_write_data insert_fails db headers (map (filter ?long) data_chunks) field_mapping"
  proof (cases "filter ?long (concat data_chunks) = []")
    case True
    then show ?thesis by (simp add: w1 w2)
  next
    case False
    have "concat data_chunks \<noteq> []"
    proof
      assume "concat data_chunks = []"
      then have "filter ?long (concat data_chunks) = []" by (simp only: filter.simps)
      then show False using False by simp
    qed
    then show ?thesis using False by (simp only: w1 w2 if_False)
  qed
  have cnt: "n = length (filter ?long (concat data_chunks))"
    if h: "mysql_write_data insert_fails db headers data_chunks field_mapping = (db', Inr n)"
    for db' n
  proof (cases "filter ?long (concat data_chunks) = []")
    case True
    then show ?thesis using h by (simp add: same w2)
  next
    case False
    then have "mysql_batches insert_fails 5000 (map ?proj (filter ?long (concat data_chunks))) db 0 0
               = (db', Inr n)"
      using h by (simp only: same w2 if_False)
    from mysql_batches_count [OF _ this] show ?thesis by simp
  qed
  show ?thesis using fd same cnt by blast
qed

theorem mysql_mapping_skips_short_rows_witness:
  "mysql_write_data (\<lambda>seen batch. False) \<lparr>committed = [], pending = []\<rparr> [u ''a'', u ''b'']
     [[[PInt 1, PInt 2], [PInt 3]], [[PInt 4, PFloat (NaN 0), PInt 5]]] [(u ''b'', u ''B'')]
   = (\<lparr>committed = [[[PInt 2], [PNone]]], pending = []\<rparr>, Inr 2)
   \<and> mysql_filtered_data [u ''a'', u ''b''] [(u ''b'', u ''B'')]
       [[PInt 1, PInt 2], [PInt 3], [PInt 4, PFloat (NaN 0), PInt 5]] = [[PInt 2], [PNone]]"
proof -
  have m: "mapped_indices [u ''a'', u ''b''] [(u ''b'', u ''B'')] = [1]"
    by (simp add: mapped_indices_def in_mapping_def u_def upt_rec)
  have a1: "[(u ''b'', u ''B'')] \<noteq> []" by simp
  have a2: "mapped_indices [u ''a'', u ''b''] [(u ''b'', u ''B'')] \<noteq> []" by (simp add: m)
  note t = mysql_mapping_skips_short_rows [OF a1 a2,
      of "[[PInt 1, PInt 2], [PInt 3], [PInt 4, PFloat (NaN 0), PInt 5]]"
         "\<lambda>seen batch. False" "\<lparr>committed = [], pending = []\<rparr>"
         "[[[PInt 1, PInt 2], [PInt 3]], [[PInt 4, PFloat (NaN 0), PInt 5]]]"]
  have fd: "mysql_filtered_data [u ''a'', u ''b''] [(u ''b'', u ''B'')]
       [[PInt 1, PInt 2], [PInt 3], [PInt 4, PFloat (NaN 0), PInt 5]] = [[PInt 2], [PNone]]"
    using t by (simp add: m is_nan_fast_def)
  have "mysql_write_data (\<lambda>seen batch. False) \<lparr>committed = [], pending = []\<rparr> [u ''a'', u ''b'']
     [[[PInt 1, PInt 2], [PInt 3]], [[PInt 4, PFloat (NaN 0), PInt 5]]] [(u ''b'', u ''B'')]
   = (\<lparr>committed = [[[PInt 2], [PNone]]], pending = []\<rparr>, Inr 2)"
    by (simp add: mysql_write_data_def fd commit_def)
  then show ?thesis using fd by simp
qed

subsection \<open>SQLite write\<close>

lemma collect_length: "collect xs = Inr ys \<Longrightarrow> length ys = length xs"
proof (induction xs arbitrary: ys)
  case Nil
  then show ?case by simp
next
  case (Cons x xs)
  then show ?case by (auto split: sum.splits)
qed

lemma sqlite_batch_length: "sqlite_batch lib h m c = Inr rows \<Longrightarrow> length rows = length c"
  using collect_length [of "map (sqlite_filtered_row lib h m) c" rows]
  by (auto simp: sqlite_batch_def split: if_splits)

lemma sqlite_batch_nomap: "sqlite_batch lib h [] c = Inr c"
  by (simp add: sqlite_batch_def)

lemma sqlite_loop_inv:
  assumes "length (pending db) = bs" "bs < max_batch_size" "\<forall>c\<in>set chunks. length c \<le> L"
    "sqlite_loop lib f h m chunks db tot bs = (db', res)"
  shows "\<exists>new. committed db' = committed db @ new \<and> pending db' = []
               \<and> sqlite_post m chunks L db tot bs new res"
  using assms
proof (induction chunks arbitrary: db tot bs)
  case Nil
  then have "db' = commit db" "res = Inr tot" by auto
  then have "committed db' = committed db @ [pending db] \<and> pending db' = []
      \<and> sqlite_post m [] L db tot bs [pending db] res"
    using Nil.prems(1,2) by (simp add: commit_def sqlite_post_def)
  then show ?case by blast
next
  case (Cons c cs)
  have Lcs: "\<forall>c\<in>set cs. length c \<le> L" and Lc: "length c \<le> L" using Cons.prems(3) by auto
  show ?case
  proof (cases "c = []")
    case True
    then have "sqlite_loop lib f h m cs db tot bs = (db', res)" using Cons.prems(4) by simp
    from Cons.IH [OF Cons.prems(1,2) Lcs this] obtain new where
      n: "committed db' = committed db @ new" "pending db' = []" "sqlite_post m cs L db tot bs new res"
      by blast
    have "sqlite_post m (c # cs) L db tot bs new res"
      using n(3) True by (cases res) (auto simp: sqlite_post_def)
    then show ?thesis using n by blast
  next
    case ne: False
    show ?thesis
    proof (cases "sqlite_batch lib h m c")
      case (Inl e)
      then have "db' = rollback db" "res = Inl e" using Cons.prems(4) ne by auto
      then have "committed db' = committed db @ [] \<and> pending db' = []
          \<and> sqlite_post m (c # cs) L db tot bs [] res"
        by (simp add: rollback_def sqlite_post_def)
      then show ?thesis by blast
    next
      case (Inr rows)
      have lr: "length rows = length c" using Inr by (rule sqlite_batch_length)
      have rc: "m = [] \<Longrightarrow> rows = c" using Inr by (simp add: sqlite_batch_nomap)
      show ?thesis
      proof (cases "f (visible db) rows")
        case True
        then have "db' = rollback db" "res = Inl DatabaseError"
          using Cons.prems(4) ne Inr by auto
        then have "committed db' = committed db @ [] \<and> pending db' = []
            \<and> sqlite_post m (c # cs) L db tot bs [] res"
          by (simp add: rollback_def sqlite_post_def)
        then show ?thesis by blast
      next
        case nf: False
        let ?db1 = "db\<lparr>pending := pending db @ rows\<rparr>"
        show ?thesis
        proof (cases "max_batch_size \<le> bs + length rows")
          case True
          then have run: "sqlite_loop lib f h m cs (commit ?db1) (tot + length rows) 0 = (db', res)"
            using Cons.prems(4) ne Inr nf by (simp add: Let_def)
          have p0: "length (pending (commit ?db1)) = 0" by (simp add: commit_def)
          have z: "0 < max_batch_size" by (simp add: max_batch_size_def)
          from Cons.IH [OF p0 z Lcs run] obtain new where
            n: "committed db' = committed (commit ?db1) @ new" "pending db' = []"
               "sqlite_post m cs L (commit ?db1) (tot + length rows) 0 new res"
            by blast
          let ?t = "pending db @ rows"
          have c: "committed db' = committed db @ (?t # new)" using n(1) by (simp add: commit_def)
          have tl: "length ?t < max_batch_size + L" "max_batch_size \<le> length ?t"
            using Cons.prems(1,2) lr Lc True by auto
          have "sqlite_post m (c # cs) L db tot bs (?t # new) res"
            using n(3) tl lr rc Cons.prems(1)
            by (cases res) (auto simp: sqlite_post_def commit_def)
          then show ?thesis using c n(2) by blast
        next
          case False
          then have run: "sqlite_loop lib f h m cs ?db1 (tot + length rows) (bs + length rows) = (db', res)"
            using Cons.prems(4) ne Inr nf by (simp add: Let_def)
          have p1: "length (pending ?db1) = bs + length rows" using Cons.prems(1) by simp
          have b1: "bs + length rows < max_batch_size" using False by simp
          from Cons.IH [OF p1 b1 Lcs run] obtain new where
            n: "committed db' = committed ?db1 @ new" "pending db' = []"
               "sqlite_post m cs L ?db1 (tot + length rows) (bs + length rows) new res"
            by blast
          have "sqlite_post m (c # cs) L db tot bs new res"
            using n(3) lr rc by (cases res) (auto simp: sqlite_post_def)
          then show ?thesis using n(1,2) by auto
        qed
      qed
    qed
  qed
qed


lemma max_index_ge: "x \<in> set xs \<Longrightarrow> x \<le> max_index xs"
proof (induction xs)
  case Nil
  then show ?case by simp
next
  case (Cons a xs)
  have m: "max_index (a # xs) = max a (max_index xs)"
    using foldl_max_ge [of a xs] by (simp add: max_index_def)
  show ?case using Cons by (auto simp: m)
qed

text \<open>
  C8. \<open>SQLiteDatabase.write_data\<close> leaves the table with the transactions it had, then
  the ones it committed, and no open transaction. A committed transaction has fewer rows
  than the threshold of 50000 plus the longest chunk; each one but the closing one was
  committed on reaching the threshold. A call that returns has committed every row and
  returns their number. A call that raises (an insert fails, or a mapped column is missing
  from a row) has rolled the open transaction back and kept every transaction committed
  before, each of them a threshold commit; the failing insert itself ends the loop with
  the rollback and the error.
\<close>

theorem sqlite_write_data_transactions:
  assumes "sqlite_write_data lib insert_fails before headers data_chunks field_mapping = (db', res)"
  shows "(\<exists>new. committed db' = before @ new \<and> pending db' = []
            \<and> (\<forall>t\<in>set new. length t < max_batch_size + max_index (map length data_chunks))
            \<and> (case res of
                  Inr n \<Rightarrow> (\<forall>t\<in>set (butlast new). max_batch_size \<le> length t)
                          \<and> n = length (concat data_chunks) \<and> length (concat new) = n
                          \<and> (field_mapping = [] \<longrightarrow> concat new = concat data_chunks)
                | Inl e \<Rightarrow> (\<forall>t\<in>set new. max_batch_size \<le> length t)
                          \<and> (field_mapping = [] \<longrightarrow> prefix (concat new) (concat data_chunks))))
         \<and> (\<forall>c cs rows db tot bs.
               c \<noteq> [] \<and> sqlite_batch lib headers field_mapping c = Inr rows
               \<and> insert_fails (visible db) rows
               \<longrightarrow> sqlite_loop lib insert_fails headers field_mapping (c # cs) db tot bs
                   = (rollback db, Inl DatabaseError))"
proof -
  let ?L = "max_index (map length data_chunks)"
  let ?db0 = "\<lparr>committed = before, pending = []\<rparr>"
  have L: "\<forall>c\<in>set data_chunks. length c \<le> ?L" by (simp add: max_index_ge)
  have run: "sqlite_loop lib insert_fails headers field_mapping data_chunks ?db0 0 0 = (db', res)"
    using assms by (simp add: sqlite_write_data_def)
  have p0: "length (pending ?db0) = 0" by simp
  have z: "0 < max_batch_size" by (simp add: max_batch_size_def)
  from sqlite_loop_inv [OF p0 z L run] obtain new where
    n: "committed db' = before @ new" "pending db' = []"
       "sqlite_post field_mapping data_chunks ?L ?db0 0 0 new res"
    by auto
  have post: "(\<forall>t\<in>set new. length t < max_batch_size + ?L)
            \<and> (case res of
                  Inr n \<Rightarrow> (\<forall>t\<in>set (butlast new). max_batch_size \<le> length t)
                          \<and> n = length (concat data_chunks) \<and> length (concat new) = n
                          \<and> (field_mapping = [] \<longrightarrow> concat new = concat data_chunks)
                | Inl e \<Rightarrow> (\<forall>t\<in>set new. max_batch_size \<le> length t)
                          \<and> (field_mapping = [] \<longrightarrow> prefix (concat new) (concat data_chunks)))"
    using n(3) by (cases res) (auto simp: sqlite_post_def)
  have first: "\<exists>new. committed db' = before @ new \<and> pending db' = []
            \<and> (\<forall>t\<in>set new. length t < max_batch_size + ?L)
            \<and> (case res of
                  Inr n \<Rightarrow> (\<forall>t\<in>set (butlast new). max_batch_size \<le> length t)
                          \<and> n = length (concat data_chunks) \<and> length (concat new) = n
                          \<and> (field_mapping = [] \<longrightarrow> concat new = concat data_chunks)
                | Inl e \<Rightarrow> (\<forall>t\<in>set new. max_batch_size \<le> length t)
                          \<and> (field_mapping = [] \<longrightarrow> prefix (concat new) (concat data_chunks)))"
    using n(1,2) post by blast
  have second: "\<forall>c cs rows db tot bs.
               c \<noteq> [] \<and> sqlite_batch lib headers field_mapping c = Inr rows
               \<and> insert_fails (visible db) rows
               \<longrightarrow> sqlite_loop lib insert_fails headers field_mapping (c # cs) db tot bs
                   = (rollback db, Inl DatabaseError)"
    by simp
  show ?thesis using first second by (rule conjI)
qed

lemma sqlite_run_ok:
  "sqlite_write_data ascii_lib (\<lambda>seen batch. False) [] [u ''a'']
     [replicate 50000 [PInt 1], [[PInt 2]]] []
   = (\<lparr>committed = [replicate 50000 [PInt 1], [[PInt 2]]], pending = []\<rparr>, Inr 50001)"
  by (simp add: sqlite_write_data_def sqlite_batch_def max_batch_size_def commit_def)

lemma sqlite_run_fails:
  "sqlite_write_data ascii_lib (\<lambda>seen batch. batch = [[PInt 2]]) [] [u ''a'']
     [replicate 50000 [PInt 1], [[PInt 2]]] []
   = (\<lparr>committed = [replicate 50000 [PInt 1]], pending = []\<rparr>, Inl DatabaseError)"
proof -
  have ne: "replicate 50000 [PInt 1] \<noteq> [[PInt 2]]"
  proof
    assume "replicate 50000 [PInt 1] = [[PInt 2]]"
    then have "length (replicate 50000 [PInt 1]) = length [[PInt 2]]" by (rule arg_cong)
    then show False by simp
  qed
  show ?thesis
    by (simp add: sqlite_write_data_def sqlite_batch_def max_batch_size_def commit_def
        rollback_def ne)
qed

theorem sqlite_write_data_transactions_witness:
  "sqlite_write_data ascii_lib (\<lambda>seen batch. batch = [[PInt 2]]) [] [u ''a'']
     [replicate 50000 [PInt 1], [[PInt 2]]] []
   = (\<lparr>committed = [replicate 50000 [PInt 1]], pending = []\<rparr>, Inl DatabaseError)
   \<and> sqlite_loop ascii_lib (\<lambda>seen batch. batch = [[PInt 2]]) [u ''a''] [] [[[PInt 2]]]
       \<lparr>committed = [], pending = [[PInt 7]]\<rparr> 1 1
     = (\<lparr>committed = [], pending = []\<rparr>, Inl DatabaseError)"
proof -
  note t = sqlite_write_data_transactions [OF sqlite_run_fails]
  from t have "sqlite_loop ascii_lib (\<lambda>seen batch. batch = [[PInt 2]]) [u ''a''] [] ([[PInt 2]] # [])
       \<lparr>committed = [], pending = [[PInt 7]]\<rparr> 1 1
     = (rollback \<lparr>committed = [], pending = [[PInt 7]]\<rparr>, Inl DatabaseError)"
    by (simp add: sqlite_batch_def)
  then show ?thesis using sqlite_run_fails by (simp add: rollback_def)
qed

subsection \<open>Type detection\<close>

lemma count_value_fields:
  "counters_ok lib tc [x] (count_value lib tc x)"
  by (cases x)
     (simp_all add: counters_ok_def count_value_def category_count_def category_of_def
        is_long_str_def max_index_def Let_def)

lemma counters_ok_nil: "counters_ok lib tc [] tc"
  by (simp add: counters_ok_def category_count_def max_index_def)

lemma counters_ok_step:
  assumes "counters_ok lib tc [x] tc1" and "counters_ok lib tc1 xs tc2"
  shows "counters_ok lib tc (x # xs) tc2"
proof -
  have m: "max_index (map (\<lambda>x. length (py_str lib x)) (x # xs)) =
           max (length (py_str lib x)) (max_index (map (\<lambda>x. length (py_str lib x)) xs))"
    using foldl_max_ge [of "length (py_str lib x)" "map (\<lambda>x. length (py_str lib x)) xs"]
    by (simp add: max_index_def)
  show ?thesis
    using assms unfolding counters_ok_def category_count_def m
    by (simp add: max_index_def max.assoc)
qed

lemma foldl_count_value:
  "counters_ok lib tc xs (foldl (count_value lib) tc xs)"
proof (induction xs arbitrary: tc)
  case Nil
  show ?case by (simp add: counters_ok_nil)
next
  case (Cons x xs)
  have "counters_ok lib tc (x # xs) (foldl (count_value lib) (count_value lib tc x) xs)"
    using count_value_fields Cons.IH by (rule counters_ok_step)
  then show ?case by simp
qed

lemma count_types_fields:
  "n_integer (count_types lib xs) = category_count lib CatInteger xs"
  "n_float (count_types lib xs) = category_count lib CatFloat xs"
  "n_date (count_types lib xs) = category_count lib CatDate xs"
  "n_boolean (count_types lib xs) = category_count lib CatBoolean xs"
  "n_long_text (count_types lib xs) = length (filter is_long_str xs)"
  "max_str_length (count_types lib xs) = max_index (map (\<lambda>x. length (py_str lib x)) xs)"
  using foldl_count_value [of lib _ xs] unfolding count_types_def counters_ok_def
  by simp_all


lemma str_raises_simps:
  "\<not> str_raises PNone"
  "\<not> str_raises (PBool b)"
  "\<not> str_raises (PFloat f)"
  "\<not> str_raises (PStr s)"
  "\<not> str_raises (PDatetime d)"
  by (simp_all add: str_raises_def)

lemma str_raises_int: "str_raises (PInt k) = (4300 < length (digits_of (nat \<bar>k\<bar>)))"
  by (simp add: str_raises_def int_max_str_digits_def)

lemma column_type_raises:
  "list_ex str_raises col \<Longrightarrow> column_type lib db i pk col = default_type db"
  by (simp add: column_type_def)

lemma column_type_unfold:
  "\<not> list_ex str_raises col \<Longrightarrow>
   column_type lib db i pk col =
     (let ne = non_empty_values lib col; th = threshold (length ne)
      in if ne = [] then default_type db
         else if th \<le> category_count lib CatInteger ne
           then (if db = SQLite
                 then (if i = 0 \<and> pk then u ''INTEGER PRIMARY KEY'' else u ''INTEGER'')
                 else (if i = 0 \<and> pk then u ''INT AUTO_INCREMENT PRIMARY KEY'' else u ''INT''))
         else if th \<le> category_count lib CatFloat ne
           then (if db = SQLite then u ''REAL'' else u ''DOUBLE'')
         else if th \<le> category_count lib CatDate ne
           then (if db = SQLite then u ''DATE'' else u ''DATETIME'')
         else if th \<le> category_count lib CatBoolean ne
           then (if db = SQLite then u ''BOOLEAN'' else u ''TINYINT(1)'')
         else if \<exists>x\<in>set ne. is_long_str x then u ''TEXT''
         else if db = SQLite then u ''TEXT''
         else varchar (min (max (max_index (map (\<lambda>x. length (py_str lib x)) ne) + 50) 100) 255))"
proof -
  have l: "(0 < length (filter is_long_str xs)) = (\<exists>x\<in>set xs. is_long_str x)" for xs
    by (simp add: filter_empty_conv)
  assume "\<not> list_ex str_raises col"
  then have "column_type lib db i pk col =
      (let non_empty = filter (\<lambda>x. x \<noteq> PNone \<and> \<not> is_blank lib x) col
       in if non_empty = [] then default_type db
          else
            let tc = count_types lib non_empty;
                total_values = length non_empty;
                th = threshold total_values
            in if n_integer tc \<ge> th
               then (if db = SQLite
                     then (if i = 0 \<and> pk then u ''INTEGER PRIMARY KEY'' else u ''INTEGER'')
                     else (if i = 0 \<and> pk then u ''INT AUTO_INCREMENT PRIMARY KEY''
                           else u ''INT''))
               else if n_float tc \<ge> th then (if db = SQLite then u ''REAL'' else u ''DOUBLE'')
               else if n_date tc \<ge> th then (if db = SQLite then u ''DATE'' else u ''DATETIME'')
               else if n_boolean tc \<ge> th
                 then (if db = SQLite then u ''BOOLEAN'' else u ''TINYINT(1)'')
               else if n_long_text tc > 0 then u ''TEXT''
               else
                 let safe_length = min (max (max_str_length tc + 50) 100) 255
                 in if db = SQLite then u ''TEXT'' else varchar safe_length)"
    unfolding column_type_def by (rule if_not_P)
  then show ?thesis
    by (simp only: non_empty_values_def [symmetric] Let_def count_types_fields l)
qed


lemma threshold_pos: "1 \<le> threshold n"
  by (simp add: threshold_def)


lemma varchar_255: "varchar 255 = u ''VARCHAR(255)''"
  by (simp add: varchar_def u_def digits_of.simps)


lemma column_empty_beyond:
  assumes "max_cols sample_data \<le> i"
  shows "column sample_data i = []"
proof -
  have "\<not> i < length r" if "r \<in> set sample_data" for r
  proof (cases "r = []")
    case True
    then show ?thesis by simp
  next
    case False
    then have "length r \<in> set (map length (filter (\<lambda>r. r \<noteq> []) sample_data))"
      using that by auto
    then have "length r \<le> max_cols sample_data"
      unfolding max_cols_def by (rule max_index_ge)
    then show ?thesis using assms by simp
  qed
  then have "filter (\<lambda>r. i < length r) sample_data = []"
    by (simp add: filter_empty_conv)
  then show ?thesis by (simp add: column_def)
qed

lemma column_type_empty: "column_type lib db i pk [] = default_type db"
  by (simp add: column_type_def)

lemma max_cols_all_empty: "filter (\<lambda>r. r \<noteq> []) sample_data = [] \<Longrightarrow> max_cols sample_data = 0"
  by (simp add: max_cols_def max_index_def)

lemma detect_length:
  "length (detect_column_types lib sample_data headers db) =
     (if headers = [] then 0 else max (length headers) (max_cols sample_data))"
proof (cases "sample_data = [] \<or> headers = [] \<or> filter (\<lambda>r. r \<noteq> []) sample_data = []")
  case True
  then have "max_cols sample_data = 0 \<or> headers = []"
    using max_cols_all_empty [of sample_data] by auto
  then show ?thesis using True by (auto simp: detect_column_types_def)
next
  case False
  then show ?thesis by (simp add: detect_column_types_def Let_def)
qed

lemma detect_nth:
  assumes "i < length (detect_column_types lib sample_data headers db)"
  shows "detect_column_types lib sample_data headers db ! i =
         column_type lib db i (is_potential_pk sample_data) (column sample_data i)"
proof (cases "sample_data = [] \<or> headers = [] \<or> filter (\<lambda>r. r \<noteq> []) sample_data = []")
  case True
  then have d: "detect_column_types lib sample_data headers db =
                replicate (length headers) (default_type db)"
    by (auto simp: detect_column_types_def)
  have "max_cols sample_data = 0 \<or> headers = []"
    using True max_cols_all_empty [of sample_data] by auto
  then have "column sample_data i = []"
    using assms d column_empty_beyond [of sample_data i] by auto
  then show ?thesis using assms d by (simp add: column_type_empty)
next
  case False
  let ?det = "map (\<lambda>i. column_type lib db i (is_potential_pk sample_data) (column sample_data i))
                [0..<max_cols sample_data]"
  have d: "detect_column_types lib sample_data headers db =
           ?det @ replicate (length headers - length ?det) (default_type db)"
    using False by (simp add: detect_column_types_def Let_def)
  show ?thesis
  proof (cases "i < max_cols sample_data")
    case True
    then show ?thesis by (simp add: d nth_append)
  next
    case False
    then have "column sample_data i = []" by (simp add: column_empty_beyond)
    then show ?thesis using False assms unfolding d
      by (simp add: nth_append column_type_empty)
  qed
qed

lemmas char_defs = py_isspace_def is_ascii_upper_def is_ascii_lower_def is_ascii_digit_def
  py_isalpha_def py_isword_def upper_char_def lower_char_def py_upper_def py_lower_def
  strip_with_def py_strip_def py_digit_def ascii_lib_def u_def

lemma int_not_blank: "\<not> is_blank lib (PInt 1)" "\<not> is_blank lib (PInt 2)" "\<not> is_blank lib (PInt 5)"
  by (simp_all add: is_blank_def str_of_int_def digits_of.simps py_strip_def strip_with_def
      py_isspace_def)

lemma int_no_raise: "\<not> str_raises (PInt 1)" "\<not> str_raises (PInt 2)" "\<not> str_raises (PInt 5)"
  by (simp_all add: str_raises_int digits_of.simps)

lemma x_not_blank: "\<not> is_blank lib (PStr (u ''x''))"
  by (simp add: is_blank_def py_strip_def strip_with_def py_isspace_def u_def)

lemma x_not_integer: "\<not> is_integer_value lib (PStr (u ''x''))"
  by (simp add: is_integer_value_def py_int_def py_strip_def strip_with_def py_isspace_def
      py_digit_def is_ascii_digit_def u_def Let_def)

lemma small_int_integer: "is_integer_value lib (PInt 1)" "is_integer_value lib (PInt 2)"
  "is_integer_value lib (PInt 5)"
  by (simp_all add: is_integer_value_def in_int64_def)

lemma threshold_1_2: "threshold 1 = 1" "threshold 2 = 1"
  by (simp_all add: threshold_def int_times_095_def round53_def bitlen.simps Let_def)

lemma threshold_Suc: "threshold (Suc 0) = 1" "threshold (Suc (Suc 0)) = 1"
  using threshold_1_2 by (simp_all add: numeral_2_eq_2)

lemma upt_0_2: "[0..<2] = [0, 1]"
  by (simp add: numeral_2_eq_2)

lemma sample_half:
  "max_cols [[PInt 1, PInt 5], [PInt 2, PStr (u ''x'')]] = 2"
  "column [[PInt 1, PInt 5], [PInt 2, PStr (u ''x'')]] 0 = [PInt 1, PInt 2]"
  "column [[PInt 1, PInt 5], [PInt 2, PStr (u ''x'')]] (Suc 0) = [PInt 5, PStr (u ''x'')]"
  "is_potential_pk [[PInt 1, PInt 5], [PInt 2, PStr (u ''x'')]]"
  by (simp_all add: max_cols_def max_index_def column_def is_potential_pk_def first_col_values_def)

lemma truncation_agrees_uptoD:
  "truncation_agrees_upto k \<Longrightarrow> n \<le> k \<Longrightarrow> int_times_095 n = 95 * n div 100"
proof (induction k)
  case 0
  then show ?case by simp
next
  case (Suc k)
  show ?case
  proof (cases "n = Suc k")
    case True
    then show ?thesis using Suc.prems(1) by simp
  next
    case False
    then have "n \<le> k" using Suc.prems(2) by simp
    then show ?thesis using Suc.IH Suc.prems(1) by simp
  qed
qed

lemma truncation_agrees_numeral:
  "truncation_agrees_upto (numeral k) =
     (int_times_095 (numeral k) = 95 * numeral k div 100 \<and> truncation_agrees_upto (pred_numeral k))"
proof -
  have e: "numeral k = Suc (pred_numeral k)" by (rule numeral_eq_Suc)
  have "truncation_agrees_upto (Suc (pred_numeral k)) =
     (int_times_095 (Suc (pred_numeral k)) = 95 * Suc (pred_numeral k) div 100
      \<and> truncation_agrees_upto (pred_numeral k))"
    by (rule truncation_agrees_upto.simps(2))
  then show ?thesis by (simp only: e [symmetric])
qed

lemma truncation_agrees_101: "truncation_agrees_upto 101"
  by (simp add: truncation_agrees_numeral int_times_095_def round53_def bitlen.simps Let_def)


lemma int_times_095_small:
  assumes "n < 102"
  shows "int_times_095 n = 95 * n div 100"
  using truncation_agrees_uptoD [OF truncation_agrees_101, of n] assms by simp

lemma sample_half_detect:
  "detect_column_types lib [[PInt 1, PInt 5], [PInt 2, PStr (u ''x'')]] hs SQLite =
     (if hs = [] then []
      else [u ''INTEGER PRIMARY KEY'', u ''INTEGER'']
           @ replicate (length hs - 2) (u ''TEXT''))"
proof -
  have ne0: "non_empty_values lib [PInt 1, PInt 2] = [PInt 1, PInt 2]"
    by (simp add: non_empty_values_def int_not_blank)
  have ne1: "non_empty_values lib [PInt 5, PStr (u ''x'')] = [PInt 5, PStr (u ''x'')]"
    by (simp add: non_empty_values_def int_not_blank x_not_blank)
  have c0: "category_count lib CatInteger [PInt 1, PInt 2] = 2"
    by (simp add: category_count_def category_of_def small_int_integer)
  have c1: "category_count lib CatInteger [PInt 5, PStr (u ''x'')] = 1"
    by (simp add: category_count_def category_of_def small_int_integer x_not_integer)
  have t0: "column_type lib SQLite 0 True [PInt 1, PInt 2] = u ''INTEGER PRIMARY KEY''"
    by (simp add: column_type_unfold int_no_raise ne0 c0 threshold_Suc Let_def)
  have t1: "column_type lib SQLite (Suc 0) True [PInt 5, PStr (u ''x'')] = u ''INTEGER''"
    by (simp add: column_type_unfold int_no_raise str_raises_simps ne1 c1 threshold_Suc Let_def)
  show ?thesis
    by (simp add: detect_column_types_def Let_def sample_half t0 t1 upt_0_2 default_type_def
        numeral_2_eq_2)
qed

lemma sample_half_counts:
  "non_empty_values lib (column [[PInt 1, PInt 5], [PInt 2, PStr (u ''x'')]] (Suc 0))
     = [PInt 5, PStr (u ''x'')]"
  "category_count lib CatInteger [PInt 5, PStr (u ''x'')] = 1"
  "non_empty_values lib (column [[PInt 1, PInt 5], [PInt 2, PStr (u ''x'')]] 0)
     = [PInt 1, PInt 2]"
  "category_count lib CatInteger [PInt 1, PInt 2] = 2"
  by (simp_all add: sample_half non_empty_values_def int_not_blank x_not_blank
      category_count_def category_of_def small_int_integer x_not_integer)




lemma max_index_le: "\<forall>x\<in>set xs. x \<le> b \<Longrightarrow> max_index xs \<le> b"
proof (induction xs)
  case Nil
  then show ?case by (simp add: max_index_def)
next
  case (Cons a xs)
  have m: "max_index (a # xs) = max a (max_index xs)"
    using foldl_max_ge [of a xs] by (simp add: max_index_def)
  show ?case using Cons by (simp add: m)
qed

lemma max_cols_le:
  assumes "\<forall>r\<in>set sample_data. length r \<le> n"
  shows "max_cols sample_data \<le> n"
  unfolding max_cols_def using assms by (intro max_index_le) auto

lemma wide_sample_detect:
  "detect_column_types lib [[PInt 1, PInt 2]] [a] SQLite = [u ''INTEGER PRIMARY KEY'', u ''INTEGER'']"
proof -
  have ne: "non_empty_values lib [PInt 1] = [PInt 1]" "non_empty_values lib [PInt 2] = [PInt 2]"
    by (simp_all add: non_empty_values_def int_not_blank)
  have c: "category_count lib CatInteger [PInt 1] = 1" "category_count lib CatInteger [PInt 2] = 1"
    by (simp_all add: category_count_def category_of_def small_int_integer)
  have t0: "column_type lib SQLite 0 True [PInt 1] = u ''INTEGER PRIMARY KEY''"
    by (simp add: column_type_unfold int_no_raise ne c threshold_Suc Let_def)
  have t1: "column_type lib SQLite (Suc 0) True [PInt 2] = u ''INTEGER''"
    by (simp add: column_type_unfold int_no_raise ne c threshold_Suc Let_def)
  have s: "max_cols [[PInt 1, PInt 2]] = 2" "column [[PInt 1, PInt 2]] 0 = [PInt 1]"
    "column [[PInt 1, PInt 2]] (Suc 0) = [PInt 2]" "is_potential_pk [[PInt 1, PInt 2]]"
    by (simp_all add: max_cols_def max_index_def column_def is_potential_pk_def first_col_values_def)
  show ?thesis
    by (simp add: detect_column_types_def Let_def s t0 t1 upt_0_2)
qed

text \<open>A sample row wider than the header list: two types for one header.\<close>

theorem detect_length_wide_sample_counterexample:
  "detect_column_types ascii_lib [[PInt 1, PInt 2]] [u ''a''] SQLite
     = [u ''INTEGER PRIMARY KEY'', u ''INTEGER'']
   \<and> length (detect_column_types ascii_lib [[PInt 1, PInt 2]] [u ''a''] SQLite) \<noteq> length [u ''a'']"
  by (simp add: wide_sample_detect)

text \<open>
  C4 (as amended). For a non-empty header list the list of types has as many entries as
  there are headers or as the widest sampled row has columns, whichever is more. So for
  every sample whose rows are no wider than the header list its length is the number of
  headers: the columns the sample lacks get the default text type, and an empty sample
  gives the default text type for every header.
\<close>

theorem detect_length_is_header_count:
  "length (detect_column_types lib sample_data headers db) =
     (if headers = [] then 0 else max (length headers) (max_cols sample_data))
   \<and> ((\<forall>r\<in>set sample_data. length r \<le> length headers) \<longrightarrow>
        length (detect_column_types lib sample_data headers db) = length headers
        \<and> (\<forall>i. max_cols sample_data \<le> i \<and> i < length headers \<longrightarrow>
               detect_column_types lib sample_data headers db ! i = default_type db))
   \<and> (sample_data = [] \<longrightarrow>
        detect_column_types lib sample_data headers db = replicate (length headers) (default_type db))"
proof -
  have a: "length (detect_column_types lib sample_data headers db) =
     (if headers = [] then 0 else max (length headers) (max_cols sample_data))"
    by (rule detect_length)
  have b: "length (detect_column_types lib sample_data headers db) = length headers
        \<and> (\<forall>i. max_cols sample_data \<le> i \<and> i < length headers \<longrightarrow>
               detect_column_types lib sample_data headers db ! i = default_type db)"
    if h: "\<forall>r\<in>set sample_data. length r \<le> length headers"
  proof -
    have m: "max_cols sample_data \<le> length headers" using h by (rule max_cols_le)
    have l: "length (detect_column_types lib sample_data headers db) = length headers"
      using a m by auto
    have "detect_column_types lib sample_data headers db ! i = default_type db"
      if "max_cols sample_data \<le> i" "i < length headers" for i
      using detect_nth [of i lib sample_data headers db] that l
      by (simp add: column_empty_beyond column_type_empty)
    then show ?thesis using l by blast
  qed
  have c: "detect_column_types lib sample_data headers db = replicate (length headers) (default_type db)"
    if "sample_data = []"
    using that by (simp add: detect_column_types_def)
  show ?thesis using a b c by blast
qed

theorem detect_length_is_header_count_witness:
  "length (detect_column_types ascii_lib [[PInt 1, PInt 5], [PInt 2, PStr (u ''x'')]]
             [u ''a'', u ''b'', u ''c''] SQLite) = 3
   \<and> detect_column_types ascii_lib [[PInt 1, PInt 5], [PInt 2, PStr (u ''x'')]]
        [u ''a'', u ''b'', u ''c''] SQLite ! 2 = u ''TEXT''"
proof -
  have w: "\<forall>r\<in>set [[PInt 1, PInt 5], [PInt 2, PStr (u ''x'')]]. length r \<le> length [u ''a'', u ''b'', u ''c'']"
    by simp
  from detect_length_is_header_count
    [of ascii_lib "[[PInt 1, PInt 5], [PInt 2, PStr (u ''x'')]]" "[u ''a'', u ''b'', u ''c'']" SQLite]
  have "length (detect_column_types ascii_lib [[PInt 1, PInt 5], [PInt 2, PStr (u ''x'')]]
             [u ''a'', u ''b'', u ''c''] SQLite) = length [u ''a'', u ''b'', u ''c'']
        \<and> (\<forall>i. max_cols [[PInt 1, PInt 5], [PInt 2, PStr (u ''x'')]] \<le> i
                 \<and> i < length [u ''a'', u ''b'', u ''c''] \<longrightarrow>
               detect_column_types ascii_lib [[PInt 1, PInt 5], [PInt 2, PStr (u ''x'')]]
                 [u ''a'', u ''b'', u ''c''] SQLite ! i = default_type SQLite)"
    using w by blast
  then show ?thesis by (simp add: sample_half default_type_def)
qed

lemma strip_with_id:
  assumes "s \<noteq> []" "\<not> p (hd s)" "\<not> p (last s)"
  shows "strip_with p s = s"
proof -
  have a: "dropWhile p s = s" using assms(2) by (simp add: dropWhile_eq_self_iff)
  have "hd (rev s) = last s" using assms(1) by (simp add: hd_rev)
  then have b: "dropWhile p (rev s) = rev s" using assms(3) by (simp add: dropWhile_eq_self_iff)
  show ?thesis by (simp add: strip_with_def a b)
qed

lemma digits_pow10: "digits_of (10 ^ k) = 49 # replicate k 48"
proof (induction k)
  case 0
  show ?case by (simp add: digits_of.simps)
next
  case (Suc k)
  have g: "\<not> (10::nat) ^ Suc k < 10" by simp
  have "digits_of (10 ^ Suc k) = digits_of (10 ^ Suc k div 10) @ [48 + 10 ^ Suc k mod 10]"
    using g by (subst digits_of.simps) simp
  also have "\<dots> = (49 # replicate k 48) @ [48]" using Suc by simp
  also have "\<dots> = 49 # replicate (Suc k) 48" by (simp add: replicate_append_same)
  finally show ?case .
qed

lemma py_str_big: "str_of_int big_int = 49 # replicate 300 48"
proof -
  have n: "nat big_int = 10 ^ 300" unfolding big_int_def by (simp add: nat_power_eq)
  have p: "\<not> big_int < 0" unfolding big_int_def by simp
  have "str_of_int big_int = digits_of (nat big_int)"
    using p by (simp only: str_of_int_def if_False)
  also have "\<dots> = 49 # replicate 300 48" by (simp only: n digits_pow10)
  finally show ?thesis .
qed

lemma nat_abs_pow10: "nat \<bar>(10::int) ^ k\<bar> = 10 ^ k"
proof -
  have "(0::int) \<le> 10 ^ k" by (rule zero_le_power) simp
  then have "\<bar>(10::int) ^ k\<bar> = 10 ^ k" by (rule abs_of_nonneg)
  moreover have "nat ((10::int) ^ k) = nat 10 ^ k" by (rule nat_power_eq) simp
  ultimately show ?thesis by simp
qed

lemma big_digits: "length (digits_of (nat \<bar>big_int\<bar>)) = 301"
  unfolding big_int_def by (simp only: nat_abs_pow10 digits_pow10) simp

lemma huge_digits: "length (digits_of (nat \<bar>huge_int\<bar>)) = 4301"
  unfolding huge_int_def by (simp only: nat_abs_pow10 digits_pow10) simp

lemma big_no_raise: "\<not> str_raises (PInt big_int)"
  by (simp add: str_raises_int big_digits)

lemma py_lower_ascii_length: "\<forall>c\<in>set s. c < 128 \<Longrightarrow> length (py_lower lib s) = length s"
  by (induction s) (simp_all add: py_lower_def lower_char_def)

lemma big_category: "category_of lib (PInt big_int) = CatOther"
proof -
  have i: "\<not> is_integer_value lib (PInt big_int)"
    by (simp add: is_integer_value_def in_int64_def big_int_def)
  have f: "\<not> is_float_value lib (PInt big_int)" by (simp add: is_float_value_def)
  have d: "\<not> is_date_value lib (PInt big_int)" by (simp add: is_date_value_def)
  have "length (py_lower lib (py_str lib (PInt big_int))) = 301"
    by (simp add: py_str_big py_lower_ascii_length)
  then have b: "\<not> is_boolean_token lib (PInt big_int)"
    unfolding is_boolean_token_def by (auto simp: u_def)
  show ?thesis by (simp add: category_of_def i f d b)
qed

lemma big_not_blank: "\<not> is_blank lib (PInt big_int)"
proof -
  have "strip_with (py_isspace lib) (49 # replicate 300 48) = 49 # replicate 300 48"
    by (rule strip_with_id) (simp_all add: py_isspace_def)
  then show ?thesis by (simp add: is_blank_def py_str_big py_strip_def)
qed

lemma big_detect:
  "detect_column_types lib [[PInt big_int]] [a] MySQL = [u ''VARCHAR(255)'']"
proof -
  have ne: "non_empty_values lib [PInt big_int] = [PInt big_int]"
    by (simp add: non_empty_values_def big_not_blank)
  have c: "category_count lib c [PInt big_int] = (if c = CatOther then 1 else 0)" for c
    by (auto simp: category_count_def big_category)
  have l: "\<not> is_long_str (PInt big_int)" by (simp add: is_long_str_def)
  have t: "column_type lib MySQL 0 pk [PInt big_int] = varchar 255" for pk
    by (simp add: column_type_unfold big_no_raise ne c threshold_Suc Let_def l max_index_def
        py_str_big)
  have s: "max_cols [[PInt big_int]] = 1" "column [[PInt big_int]] 0 = [PInt big_int]"
    by (simp_all add: max_cols_def max_index_def column_def)
  show ?thesis
    by (simp add: detect_column_types_def Let_def s t varchar_255)
qed

text \<open>An integer whose text has 301 characters: \<open>VARCHAR(255)\<close>, not \<open>TEXT\<close>.\<close>

theorem long_non_string_value_counterexample:
  "detect_column_types ascii_lib [[PInt big_int]] [u ''n''] MySQL = [u ''VARCHAR(255)'']
   \<and> length (py_str ascii_lib (PInt big_int)) = 301
   \<and> u ''VARCHAR(255)'' \<noteq> u ''TEXT''"
  by (simp add: big_detect py_str_big u_def)

lemma column_type_pk:
  assumes "column_type lib db i pk col \<in> {u ''INTEGER PRIMARY KEY'', u ''INT AUTO_INCREMENT PRIMARY KEY''}"
  shows "i = 0 \<and> pk \<and> non_empty_values lib col \<noteq> []
         \<and> threshold (length (non_empty_values lib col))
           \<le> category_count lib CatInteger (non_empty_values lib col)"
proof -
  have v: "varchar n \<noteq> u ''INTEGER PRIMARY KEY''" "varchar n \<noteq> u ''INT AUTO_INCREMENT PRIMARY KEY''" for n
    by (simp_all add: varchar_def u_def)
  have d: "default_type db \<noteq> u ''INTEGER PRIMARY KEY''"
    "default_type db \<noteq> u ''INT AUTO_INCREMENT PRIMARY KEY''"
    by (simp_all add: default_type_def u_def)
  have s: "u ''INTEGER'' \<noteq> u ''INTEGER PRIMARY KEY''" "u ''INTEGER'' \<noteq> u ''INT AUTO_INCREMENT PRIMARY KEY''"
    "u ''INT'' \<noteq> u ''INTEGER PRIMARY KEY''" "u ''INT'' \<noteq> u ''INT AUTO_INCREMENT PRIMARY KEY''"
    "u ''REAL'' \<noteq> u ''INTEGER PRIMARY KEY''" "u ''REAL'' \<noteq> u ''INT AUTO_INCREMENT PRIMARY KEY''"
    "u ''DOUBLE'' \<noteq> u ''INTEGER PRIMARY KEY''" "u ''DOUBLE'' \<noteq> u ''INT AUTO_INCREMENT PRIMARY KEY''"
    "u ''DATE'' \<noteq> u ''INTEGER PRIMARY KEY''" "u ''DATE'' \<noteq> u ''INT AUTO_INCREMENT PRIMARY KEY''"
    "u ''DATETIME'' \<noteq> u ''INTEGER PRIMARY KEY''" "u ''DATETIME'' \<noteq> u ''INT AUTO_INCREMENT PRIMARY KEY''"
    "u ''BOOLEAN'' \<noteq> u ''INTEGER PRIMARY KEY''" "u ''BOOLEAN'' \<noteq> u ''INT AUTO_INCREMENT PRIMARY KEY''"
    "u ''TINYINT(1)'' \<noteq> u ''INTEGER PRIMARY KEY''" "u ''TINYINT(1)'' \<noteq> u ''INT AUTO_INCREMENT PRIMARY KEY''"
    "u ''TEXT'' \<noteq> u ''INTEGER PRIMARY KEY''" "u ''TEXT'' \<noteq> u ''INT AUTO_INCREMENT PRIMARY KEY''"
    by (simp_all add: u_def)
  show ?thesis
  proof (cases "list_ex str_raises col")
    case True
    then show ?thesis using assms by (simp add: column_type_raises d)
  next
    case False
    show ?thesis
      using assms unfolding column_type_unfold [OF False] Let_def
      by (simp add: v d s split: if_splits)
  qed
qed

lemma potential_pk_distinct:
  assumes "is_potential_pk sample_data"
  shows "first_col_values sample_data \<noteq> [] \<and> distinct (map py_key (first_col_values sample_data))
         \<and> distinct (first_col_values sample_data)"
proof -
  let ?vs = "first_col_values sample_data"
  have l: "length (remdups (map py_key ?vs)) = length (map py_key ?vs)" and n: "?vs \<noteq> []"
    using assms by (auto simp: is_potential_pk_def)
  from l have "remdups (map py_key ?vs) = map py_key ?vs" by (simp only: length_remdups_eq)
  then have d: "distinct (map py_key ?vs)" by (simp only: remdups_id_iff_distinct)
  then have "distinct ?vs" by (simp add: distinct_map)
  then show ?thesis using n d by simp
qed

text \<open>
  C5 (as amended). A type of the result is a primary-key variant (\<open>INTEGER PRIMARY KEY\<close>,
  \<open>INT AUTO_INCREMENT PRIMARY KEY\<close>) only at column 0, only if the sampled values of
  column 0 that are not \<open>None\<close> are pairwise different (as elements of a \<open>set\<close>) and
  there is one, and only when the number of integers among the \<open>n\<close> non-empty values of
  the column reaches the threshold \<open>max(1, int(0.95 * n))\<close>, which for samples of up to
  101 values is \<open>max(1, floor(95 n / 100))\<close>: a truncated count, not a share of 95
  percent.
\<close>

theorem primary_key_needs_unique_first_column:
  assumes "i < length (detect_column_types lib sample_data headers db)"
    and "detect_column_types lib sample_data headers db ! i
           \<in> {u ''INTEGER PRIMARY KEY'', u ''INT AUTO_INCREMENT PRIMARY KEY''}"
  shows "i = 0 \<and> is_potential_pk sample_data
         \<and> first_col_values sample_data \<noteq> []
         \<and> distinct (map py_key (first_col_values sample_data))
         \<and> distinct (first_col_values sample_data)
         \<and> non_empty_values lib (column sample_data 0) \<noteq> []
         \<and> threshold (length (non_empty_values lib (column sample_data 0)))
           \<le> category_count lib CatInteger (non_empty_values lib (column sample_data 0))
         \<and> threshold (length (non_empty_values lib (column sample_data 0)))
             = max 1 (int_times_095 (length (non_empty_values lib (column sample_data 0))))
         \<and> (length (non_empty_values lib (column sample_data 0)) < 102 \<longrightarrow>
             threshold (length (non_empty_values lib (column sample_data 0)))
             = max 1 (95 * length (non_empty_values lib (column sample_data 0)) div 100))"
proof -
  have "column_type lib db i (is_potential_pk sample_data) (column sample_data i)
          \<in> {u ''INTEGER PRIMARY KEY'', u ''INT AUTO_INCREMENT PRIMARY KEY''}"
    using assms(2) detect_nth [OF assms(1)] by simp
  from column_type_pk [OF this]
  have a: "i = 0" "is_potential_pk sample_data"
    "non_empty_values lib (column sample_data i) \<noteq> []"
    "threshold (length (non_empty_values lib (column sample_data i)))
       \<le> category_count lib CatInteger (non_empty_values lib (column sample_data i))"
    by auto
  show ?thesis
    using a potential_pk_distinct [OF a(2)] by (simp add: threshold_def int_times_095_small)
qed

theorem primary_key_needs_unique_first_column_witness:
  "is_potential_pk [[PInt 1, PInt 5], [PInt 2, PStr (u ''x'')]]
   \<and> distinct (first_col_values [[PInt 1, PInt 5], [PInt 2, PStr (u ''x'')]])
   \<and> first_col_values [[PInt 1, PInt 5], [PInt 2, PStr (u ''x'')]] = [PInt 1, PInt 2]
   \<and> threshold 2 \<le> category_count ascii_lib CatInteger [PInt 1, PInt 2]"
proof -
  have l: "0 < length (detect_column_types ascii_lib [[PInt 1, PInt 5], [PInt 2, PStr (u ''x'')]]
                        [u ''a'', u ''b''] SQLite)"
    by (simp add: sample_half_detect)
  have m: "detect_column_types ascii_lib [[PInt 1, PInt 5], [PInt 2, PStr (u ''x'')]]
             [u ''a'', u ''b''] SQLite ! 0
           \<in> {u ''INTEGER PRIMARY KEY'', u ''INT AUTO_INCREMENT PRIMARY KEY''}"
    by (simp add: sample_half_detect)
  have f: "first_col_values [[PInt 1, PInt 5], [PInt 2, PStr (u ''x'')]] = [PInt 1, PInt 2]"
    by (simp add: first_col_values_def)
  from primary_key_needs_unique_first_column [OF l m]
  show ?thesis by (simp add: f sample_half_counts threshold_Suc threshold_1_2)
qed

text \<open>
  Column 0 with the values \<open>1\<close> and \<open>'x'\<close>: a primary key, with one integer among its
  two non-empty values.
\<close>

lemma pk_half_detect:
  "detect_column_types lib [[PInt 1], [PStr (u ''x'')]] [a] SQLite = [u ''INTEGER PRIMARY KEY'']"
proof -
  have s: "max_cols [[PInt 1], [PStr (u ''x'')]] = 1"
    "column [[PInt 1], [PStr (u ''x'')]] 0 = [PInt 1, PStr (u ''x'')]"
    "is_potential_pk [[PInt 1], [PStr (u ''x'')]]"
    by (simp_all add: max_cols_def max_index_def column_def is_potential_pk_def
        first_col_values_def u_def)
  have ne: "non_empty_values lib [PInt 1, PStr (u ''x'')] = [PInt 1, PStr (u ''x'')]"
    by (simp add: non_empty_values_def int_not_blank x_not_blank)
  have c: "category_count lib CatInteger [PInt 1, PStr (u ''x'')] = 1"
    by (simp add: category_count_def category_of_def small_int_integer x_not_integer)
  have t: "column_type lib SQLite 0 True [PInt 1, PStr (u ''x'')] = u ''INTEGER PRIMARY KEY''"
    by (simp add: column_type_unfold int_no_raise str_raises_simps ne c threshold_Suc Let_def)
  show ?thesis
    by (simp add: detect_column_types_def Let_def s t)
qed

theorem primary_key_at_half_counterexample:
  "detect_column_types ascii_lib [[PInt 1], [PStr (u ''x'')]] [u ''a''] SQLite
     = [u ''INTEGER PRIMARY KEY'']
   \<and> non_empty_values ascii_lib (column [[PInt 1], [PStr (u ''x'')]] 0)
     = [PInt 1, PStr (u ''x'')]
   \<and> category_count ascii_lib CatInteger [PInt 1, PStr (u ''x'')] = 1
   \<and> \<not> 95 * length [PInt 1, PStr (u ''x'')]
        \<le> 100 * category_count ascii_lib CatInteger [PInt 1, PStr (u ''x'')]"
  by (simp add: pk_half_detect column_def non_empty_values_def int_not_blank x_not_blank
      category_count_def category_of_def small_int_integer x_not_integer)

lemma x_category: "category_of lib (PStr (u ''x'')) = CatOther"
  by (simp add: category_of_def is_integer_value_def py_int_def is_float_value_def re_match_def
      float_pattern_def is_date_value_def date_patterns_def is_boolean_token_def
      rx_d_def rx_c_def rx_w_def rx_sign_def py_isspace_def is_ascii_upper_def is_ascii_lower_def
      is_ascii_digit_def py_isword_def lower_char_def py_lower_def strip_with_def py_strip_def
      py_digit_def u_def Let_def upt_rec_numeral)

lemma varchar_100: "varchar 100 = u ''VARCHAR(100)''"
  by (simp add: varchar_def u_def digits_of.simps)

lemma u_length: "length (u s) = length s"
  by (simp add: u_def)

lemma x_sample:
  "max_cols [[PStr (u ''x'')]] = 1" "column [[PStr (u ''x'')]] 0 = [PStr (u ''x'')]"
  "non_empty_values lib [PStr (u ''x'')] = [PStr (u ''x'')]"
  "category_count lib c [PStr (u ''x'')] = (if c = CatOther then 1 else 0)"
  "\<not> is_long_str (PStr (u ''x''))"
  by (simp_all add: max_cols_def max_index_def column_def non_empty_values_def x_not_blank
      category_count_def x_category is_long_str_def u_length)

lemma max_index_map_Max: "xs \<noteq> [] \<Longrightarrow> max_index (map f xs) = Max (f ` set xs)"
  using max_index_Max [of "map f xs"] by simp

text \<open>
  C6 (as amended). For the MySQL dialect:
  a column with a sampled value on which \<open>str\<close> raises, or without a non-empty sampled
  value, gets the default \<open>VARCHAR(255)\<close>;
  any other column with no scalar category at its threshold gets \<open>TEXT\<close> when one of its
  non-empty values (not \<open>None\<close>, not blank) is a string longer than 255 characters, and
  otherwise \<open>VARCHAR(L)\<close> with \<open>L = min(max(m + 50, 100), 255)\<close>, \<open>m\<close> being the largest
  length of the text of a non-empty value. A value that is not a string counts for \<open>m\<close>
  only, however long its text is, and a blank string counts for nothing.
\<close>

theorem mysql_text_type_fallthrough:
  assumes "i < length (detect_column_types lib sample_data headers MySQL)"
  shows "(list_ex str_raises (column sample_data i)
            \<or> non_empty_values lib (column sample_data i) = [] \<longrightarrow>
          detect_column_types lib sample_data headers MySQL ! i = u ''VARCHAR(255)'')
       \<and> (\<not> list_ex str_raises (column sample_data i)
            \<and> non_empty_values lib (column sample_data i) \<noteq> []
            \<and> (\<forall>c. c \<noteq> CatOther \<longrightarrow>
                   category_count lib c (non_empty_values lib (column sample_data i))
                   < threshold (length (non_empty_values lib (column sample_data i)))) \<longrightarrow>
          detect_column_types lib sample_data headers MySQL ! i =
            (if \<exists>x\<in>set (non_empty_values lib (column sample_data i)). is_long_str x
             then u ''TEXT''
             else varchar (min (max (Max ((\<lambda>x. length (py_str lib x))
                                           ` set (non_empty_values lib (column sample_data i))) + 50)
                                 100) 255)))"
proof (intro conjI impI)
  let ?ne = "non_empty_values lib (column sample_data i)"
  assume a: "list_ex str_raises (column sample_data i) \<or> ?ne = []"
  show "detect_column_types lib sample_data headers MySQL ! i = u ''VARCHAR(255)''"
  proof (cases "list_ex str_raises (column sample_data i)")
    case True
    then show ?thesis
      unfolding detect_nth [OF assms]
      by (simp add: column_type_raises default_type_def)
  next
    case False
    with a have "?ne = []" by simp
    then show ?thesis
      unfolding detect_nth [OF assms] column_type_unfold [OF False] Let_def
      by (simp add: default_type_def)
  qed
next
  let ?ne = "non_empty_values lib (column sample_data i)"
  assume a: "\<not> list_ex str_raises (column sample_data i) \<and> ?ne \<noteq> []
     \<and> (\<forall>c. c \<noteq> CatOther \<longrightarrow> category_count lib c ?ne < threshold (length ?ne))"
  then have nr: "\<not> list_ex str_raises (column sample_data i)" and ne: "?ne \<noteq> []"
    by simp_all
  have c: "\<not> threshold (length ?ne) \<le> category_count lib CatInteger ?ne"
    "\<not> threshold (length ?ne) \<le> category_count lib CatFloat ?ne"
    "\<not> threshold (length ?ne) \<le> category_count lib CatDate ?ne"
    "\<not> threshold (length ?ne) \<le> category_count lib CatBoolean ?ne"
    using a by (auto simp: not_le)
  have m: "max_index (map (\<lambda>x. length (py_str lib x)) ?ne) = Max ((\<lambda>x. length (py_str lib x)) ` set ?ne)"
    using ne by (rule max_index_map_Max)
  show "detect_column_types lib sample_data headers MySQL ! i =
            (if \<exists>x\<in>set ?ne. is_long_str x
             then u ''TEXT''
             else varchar (min (max (Max ((\<lambda>x. length (py_str lib x)) ` set ?ne) + 50) 100) 255))"
    unfolding detect_nth [OF assms] column_type_unfold [OF nr] Let_def
    using ne c by (simp add: m)
qed

lemma huge_raises: "str_raises (PInt huge_int)"
  by (simp add: str_raises_int huge_digits)

lemma huge_sample:
  "max_cols [[PInt huge_int, PStr s]] = 2" "column [[PInt huge_int, PStr s]] 0 = [PInt huge_int]"
  by (simp_all add: max_cols_def max_index_def column_def)

theorem mysql_text_type_fallthrough_witness:
  "detect_column_types ascii_lib [[PStr (u ''x'')]] [u ''a''] MySQL ! 0 = u ''VARCHAR(100)''
   \<and> detect_column_types ascii_lib [[PInt huge_int, PStr (u ''x'')]] [u ''a'', u ''b''] MySQL ! 0
       = u ''VARCHAR(255)''"
proof -
  have t: "column_type ascii_lib MySQL 0 pk [PStr (u ''x'')] = varchar 100" for pk
    by (simp add: column_type_unfold str_raises_simps x_sample threshold_Suc Let_def
        max_index_def u_length)
  have d: "detect_column_types ascii_lib [[PStr (u ''x'')]] [u ''a''] MySQL = [varchar 100]"
    by (simp add: detect_column_types_def Let_def x_sample t)
  have l: "0 < length (detect_column_types ascii_lib [[PStr (u ''x'')]] [u ''a''] MySQL)"
    by (simp add: d)
  have n: "\<not> list_ex str_raises (column [[PStr (u ''x'')]] 0)
     \<and> non_empty_values ascii_lib (column [[PStr (u ''x'')]] 0) \<noteq> []
     \<and> (\<forall>c. c \<noteq> CatOther \<longrightarrow>
           category_count ascii_lib c (non_empty_values ascii_lib (column [[PStr (u ''x'')]] 0))
           < threshold (length (non_empty_values ascii_lib (column [[PStr (u ''x'')]] 0))))"
    by (simp add: x_sample threshold_Suc str_raises_simps)
  from mysql_text_type_fallthrough [OF l] n
  have "detect_column_types ascii_lib [[PStr (u ''x'')]] [u ''a''] MySQL ! 0 =
     (if \<exists>x\<in>set (non_empty_values ascii_lib (column [[PStr (u ''x'')]] 0)). is_long_str x
      then u ''TEXT''
      else varchar (min (max (Max ((\<lambda>x. length (py_str ascii_lib x))
             ` set (non_empty_values ascii_lib (column [[PStr (u ''x'')]] 0))) + 50) 100) 255))"
    by blast
  then have first: "detect_column_types ascii_lib [[PStr (u ''x'')]] [u ''a''] MySQL ! 0
       = u ''VARCHAR(100)''"
    by (simp add: x_sample varchar_100 u_length)
  have l2: "0 < length (detect_column_types ascii_lib [[PInt huge_int, PStr (u ''x'')]]
                          [u ''a'', u ''b''] MySQL)"
    by (simp add: detect_length huge_sample)
  have r: "list_ex str_raises (column [[PInt huge_int, PStr (u ''x'')]] 0)"
    by (simp add: huge_sample huge_raises)
  from mysql_text_type_fallthrough [OF l2] r
  have second: "detect_column_types ascii_lib [[PInt huge_int, PStr (u ''x'')]] [u ''a'', u ''b'']
       MySQL ! 0 = u ''VARCHAR(255)''"
    by blast
  show ?thesis using first second by (intro conjI)
qed

subsection \<open>Identifier sanitization\<close>































































end
